theory Spec2Isabelle
  imports Complex_Main "HOL-Library.Sublist" "HOL-Library.Multiset"
begin

section \<open>Values of the JavaScript source\<close>

text \<open>
  A JavaScript string is a sequence of UTF-16 code units; \<open>length\<close> and
  \<open>substring\<close> count code units. Here a code unit is a \<^typ>\<open>char\<close>, so the
  development covers text whose code units lie in the 8-bit range. An absent request
  field (\<open>undefined\<close>) is \<open>None\<close>. An ObjectId is a natural number, a \<open>Date\<close> is
  its integer time value, a \<open>Number\<close> is a real.
\<close>

type_synonym objectId = nat
type_synonym date = int

text \<open>\<open>String.prototype.trim\<close>: the white space and line terminators of the 8-bit range.\<close>

definition isWhiteSpace :: "char \<Rightarrow> bool" where
  "isWhiteSpace c = (c = CHR 0x09 \<or> c = CHR 0x0A \<or> c = CHR 0x0B \<or> c = CHR 0x0C
     \<or> c = CHR 0x0D \<or> c = CHR 0x20 \<or> c = CHR 0xA0)"

definition trim :: "string \<Rightarrow> string" where
  "trim s = rev (dropWhile isWhiteSpace (rev (dropWhile isWhiteSpace s)))"

text \<open>Truthiness of an optional string: \<open>undefined\<close> and \<open>''\<close> are falsy.\<close>

fun truthy :: "string option \<Rightarrow> bool" where
  "truthy None = False"
| "truthy (Some s) = (s \<noteq> [])"

text \<open>\<open>a || b\<close> on an optional string and a string.\<close>

fun orElse :: "string option \<Rightarrow> string \<Rightarrow> string" where
  "orElse None d = d"
| "orElse (Some s) d = (if s \<noteq> [] then s else d)"

section \<open>The schemas of models/Conversation.js\<close>

text \<open>
  \<open>messageSchema\<close>. The sub-document's generated \<open>_id\<close>, \<open>createdAt\<close> and
  \<open>updatedAt\<close> are read by no handler and are left out; the field \<open>model\<close> of a
  message is \<open>msgModel\<close> here, since the conversation has a field of that name too.
\<close>

record message =
  role :: string
  content :: string
  timestamp :: date
  tokens :: real
  msgModel :: string

text \<open>
  The nested path \<open>settings\<close> as the database stores it: a sub-field may be absent
  from the stored object, and a document loaded from the database reads an absent
  sub-field as the schema's default.
\<close>

record settingsDoc =
  temperature :: "real option"
  maxTokens :: "real option"

record conversation =
  oid :: objectId
  userId :: objectId
  title :: string
  messages :: "message list"
  isArchived :: bool
  isPinned :: bool
  tags :: "string list"
  totalTokens :: real
  model :: string
  settings :: settingsDoc
  createdAt :: date
  updatedAt :: date

definition defaultModel :: string where
  "defaultModel = ''gpt-4o-mini''"

definition readTemperature :: "conversation \<Rightarrow> real" where
  "readTemperature c = (case temperature (settings c) of None \<Rightarrow> 0.7 | Some t \<Rightarrow> t)"

definition readMaxTokens :: "conversation \<Rightarrow> real" where
  "readMaxTokens c = (case maxTokens (settings c) of None \<Rightarrow> 1000 | Some n \<Rightarrow> n)"

text \<open>The virtual \<open>messageCount\<close>.\<close>

definition messageCount :: "conversation \<Rightarrow> nat" where
  "messageCount c = length (messages c)"

subsection \<open>Validators\<close>

text \<open>
  \<open>role\<close>: required, one of the enum; \<open>content\<close>: required (a required string
  is a non-empty one).
\<close>

definition validMessage :: "message \<Rightarrow> bool" where
  "validMessage m = ((role m = ''user'' \<or> role m = ''assistant'') \<and> content m \<noteq> [])"

definition validTemperature :: "real option \<Rightarrow> bool" where
  "validTemperature t = (case t of None \<Rightarrow> True | Some x \<Rightarrow> 0 \<le> x \<and> x \<le> 2)"

text \<open>\<open>title\<close>: required, at most 100 characters; the messages; \<open>settings.temperature\<close>.\<close>

definition validConversation :: "conversation \<Rightarrow> bool" where
  "validConversation c = (title c \<noteq> [] \<and> length (title c) \<le> 100
     \<and> list_all validMessage (messages c) \<and> validTemperature (temperature (settings c)))"

subsection \<open>Exceptions and outward failures\<close>

text \<open>
  What a call into the persistence layer or the provider can throw. A \<open>CastError\<close>
  comes from a malformed id. \<open>ProviderFailure st\<close> is the error the \<open>openai\<close> client
  throws when a request fails: an \<open>APIError\<close>, whose field \<open>status\<close> holds the HTTP
  status \<open>st\<close> of the provider's answer, if there was one.
\<close>

datatype exn =
    ValidationError
  | CastError
  | MongoError
  | DocumentNotFoundError
  | ProviderFailure "nat option"

text \<open>
  \<open>error.response?.status\<close>, as the chat route's catch block reads it. The client's
  \<open>APIError\<close> carries its status in \<open>error.status\<close> and has no field \<open>response\<close>,
  and the errors of the persistence layer have none either, so the optional chain yields
  \<open>undefined\<close> on each.
\<close>

fun responseStatus :: "exn \<Rightarrow> nat option" where
  "responseStatus (ProviderFailure st) = None"
| "responseStatus ValidationError = None"
| "responseStatus CastError = None"
| "responseStatus MongoError = None"
| "responseStatus DocumentNotFoundError = None"

text \<open>
  The failures a handler answers with: 400, 404, 401, 429, the chat route's 500 and the
  conversation routes' 500.
\<close>

datatype failure =
    ValidationFailure
  | NotFound
  | AuthFailure
  | RateLimited
  | ProviderError
  | ServerError

subsection \<open>The collection\<close>

text \<open>
  The collection is the list of its documents in insertion order. A document method that
  saves returns the document and the collection after it; when it throws, the
  collection is the one reached so far.
\<close>

type_synonym store = "conversation list"

type_synonym 'a saving = "(exn + 'a) \<times> store"

definition andThen :: "'a saving \<Rightarrow> ('a \<Rightarrow> store \<Rightarrow> 'b saving) \<Rightarrow> 'b saving" where
  "andThen r f = (case r of (Inl e, s) \<Rightarrow> (Inl e, s) | (Inr a, s) \<Rightarrow> f a s)"

text \<open>The first element that passes a filter, updated or removed, as the database does.\<close>

fun updateFirst :: "('a \<Rightarrow> bool) \<Rightarrow> ('a \<Rightarrow> 'a) \<Rightarrow> 'a list \<Rightarrow> 'a list" where
  "updateFirst P f [] = []"
| "updateFirst P f (x # xs) = (if P x then f x # xs else x # updateFirst P f xs)"

fun removeFirst :: "('a \<Rightarrow> bool) \<Rightarrow> 'a list \<Rightarrow> 'a list" where
  "removeFirst P [] = []"
| "removeFirst P (x # xs) = (if P x then xs else x # removeFirst P xs)"

text \<open>\<open>Conversation.findOne({ _id, userId })\<close>.\<close>

definition findOne :: "store \<Rightarrow> objectId \<Rightarrow> objectId \<Rightarrow> conversation option" where
  "findOne s cid uid = find (\<lambda>c. oid c = cid \<and> userId c = uid) s"

text \<open>
  \<open>doc.save()\<close>: the whole document is validated first. A new document is inserted
  (the unique index on \<open>_id\<close> rejects a duplicate) and gets both timestamps; a loaded one
  replaces its stored version and gets \<open>updatedAt\<close> (the save throws when the
  document is no longer stored). One clock reading \<open>now\<close> serves a whole request.
\<close>

definition save :: "date \<Rightarrow> bool \<Rightarrow> conversation \<Rightarrow> store \<Rightarrow> conversation saving" where
  "save now isNew doc s =
     (if \<not> validConversation doc then (Inl ValidationError, s)
      else if isNew then
        (if list_ex (\<lambda>c. oid c = oid doc) s then (Inl MongoError, s)
         else (let d = doc\<lparr>createdAt := now, updatedAt := now\<rparr> in (Inr d, s @ [d])))
      else if \<not> list_ex (\<lambda>c. oid c = oid doc) s then (Inl DocumentNotFoundError, s)
      else (let d = doc\<lparr>updatedAt := now\<rparr>
            in (Inr d, updateFirst (\<lambda>c. oid c = oid doc) (\<lambda>c. d) s)))"

text \<open>
  \<open>new Conversation({ userId, title })\<close>: the setter of \<open>title\<close> trims, every other
  path takes its default. The timestamps are set by the first save.
\<close>

definition newConversation :: "objectId \<Rightarrow> objectId \<Rightarrow> string \<Rightarrow> conversation" where
  "newConversation newId uid t =
     \<lparr> oid = newId, userId = uid, title = trim t, messages = [],
       isArchived = False, isPinned = False, tags = [], totalTokens = 0,
       model = defaultModel,
       settings = \<lparr> temperature = Some 0.7, maxTokens = Some 1000 \<rparr>,
       createdAt = 0, updatedAt = 0 \<rparr>"

text \<open>
  \<open>addMessage(role, content, model = 'gpt-4o-mini')\<close>: it pushes the message (the
  sub-document's \<open>content\<close> goes through the trim setter), sets the conversation's
  \<open>model\<close> and saves.
\<close>

definition pushMessage ::
  "date \<Rightarrow> string \<Rightarrow> string \<Rightarrow> string option \<Rightarrow> conversation \<Rightarrow> conversation" where
  "pushMessage now r c m doc =
     (let mo = (case m of None \<Rightarrow> defaultModel | Some x \<Rightarrow> x) in
      doc\<lparr>messages := messages doc @
             [\<lparr> role = r, content = trim c, timestamp = now, tokens = 0, msgModel = mo \<rparr>],
          model := mo\<rparr>)"

definition addMessage ::
  "date \<Rightarrow> bool \<Rightarrow> string \<Rightarrow> string \<Rightarrow> string option \<Rightarrow> conversation \<Rightarrow> store
    \<Rightarrow> conversation saving" where
  "addMessage now isNew r c m doc s = save now isNew (pushMessage now r c m doc) s"

text \<open>\<open>updateTitleFromFirstMessage()\<close>.\<close>

definition derivedTitle :: "string \<Rightarrow> string" where
  "derivedTitle c = take 50 c @ (if length c > 50 then ''...'' else [])"

definition updateTitleFromFirstMessage ::
  "date \<Rightarrow> conversation \<Rightarrow> store \<Rightarrow> conversation saving" where
  "updateTitleFromFirstMessage now doc s =
     (case find (\<lambda>m. role m = ''user'') (messages doc) of
        Some firstUserMessage \<Rightarrow>
          (if title doc = []
           then save now False (doc\<lparr>title := trim (derivedTitle (content firstUserMessage))\<rparr>) s
           else save now False doc s)
      | None \<Rightarrow> save now False doc s)"

text \<open>\<open>getSummary()\<close>; \<open>lastMessage\<close> of an empty sequence is \<open>undefined\<close>.\<close>

record summary =
  summaryId :: objectId
  summaryTitle :: string
  summaryMessageCount :: nat
  summaryLastMessage :: "message option"
  summaryCreatedAt :: date
  summaryUpdatedAt :: date
  summaryIsArchived :: bool
  summaryIsPinned :: bool
  summaryTags :: "string list"

definition getSummary :: "conversation \<Rightarrow> summary" where
  "getSummary c =
     \<lparr> summaryId = oid c, summaryTitle = title c, summaryMessageCount = messageCount c,
       summaryLastMessage = (if messages c = [] then None else Some (last (messages c))),
       summaryCreatedAt = createdAt c, summaryUpdatedAt = updatedAt c,
       summaryIsArchived = isArchived c, summaryIsPinned = isPinned c,
       summaryTags = tags c \<rparr>"

section \<open>The handlers of routes/conversations.js\<close>

text \<open>
  A handler takes the collection and returns its answer with the collection after the
  request. The owner is \<open>req.user._id\<close>, resolved by the auth middleware.
\<close>

type_synonym 'a response = "(failure + 'a) \<times> store"

text \<open>\<open>POST /api/conversations\<close>. \<open>newId\<close> is the ObjectId the new document draws.\<close>

definition createConversation ::
  "date \<Rightarrow> objectId \<Rightarrow> objectId \<Rightarrow> string option \<Rightarrow> string option \<Rightarrow> store
    \<Rightarrow> summary response" where
  "createConversation now newId owner ttl initialMessage s =
     (let conversation = newConversation newId owner (orElse ttl ''New Chat'');
          r = (if truthy initialMessage
               then andThen (addMessage now True ''user'' (the initialMessage) None conversation s)
                      (\<lambda>c1 s1. andThen (updateTitleFromFirstMessage now c1 s1)
                         (\<lambda>c2 s2. save now False c2 s2))
               else save now True conversation s)
      in case r of
           (Inl e, s') \<Rightarrow> (Inl (if e = ValidationError then ValidationFailure else ServerError), s')
         | (Inr c, s') \<Rightarrow> (Inr (getSummary c), s'))"

text \<open>\<open>GET /api/conversations/:id\<close>; it writes nothing.\<close>

definition getConversation :: "store \<Rightarrow> objectId \<Rightarrow> objectId \<Rightarrow> failure + conversation" where
  "getConversation s owner cid =
     (case findOne s cid owner of None \<Rightarrow> Inl NotFound | Some c \<Rightarrow> Inr c)"

text \<open>
  \<open>PUT /api/conversations/:id\<close>. The body's fields, each possibly absent; a
  \<open>settings\<close> object may itself lack a sub-field.
\<close>

record updateBody =
  bodyTitle :: "string option"
  bodyTags :: "string list option"
  bodyIsArchived :: "bool option"
  bodyIsPinned :: "bool option"
  bodySettings :: "settingsDoc option"

text \<open>
  The handler copies each field that is not \<open>undefined\<close> into \<open>updates\<close>. For
  \<open>settings\<close> it spreads \<open>updates.settings\<close>, which is still \<open>undefined\<close> on the
  fresh \<open>updates\<close> object, and then the body's object: \<open>spread\<close> is the object spread
  of two settings objects, the later one winning, and \<open>updates.settings\<close> contributes
  no field.
\<close>

definition spread :: "settingsDoc \<Rightarrow> settingsDoc \<Rightarrow> settingsDoc" where
  "spread a b =
     \<lparr> temperature = (case temperature b of None \<Rightarrow> temperature a | Some t \<Rightarrow> Some t),
       maxTokens = (case maxTokens b of None \<Rightarrow> maxTokens a | Some n \<Rightarrow> Some n) \<rparr>"

definition noSettings :: settingsDoc where
  "noSettings = \<lparr> temperature = None, maxTokens = None \<rparr>"

definition buildUpdates :: "updateBody \<Rightarrow> updateBody" where
  "buildUpdates b =
     \<lparr> bodyTitle = bodyTitle b, bodyTags = bodyTags b, bodyIsArchived = bodyIsArchived b,
       bodyIsPinned = bodyIsPinned b,
       bodySettings = (case bodySettings b of None \<Rightarrow> None
                       | Some st \<Rightarrow> Some (spread noSettings st)) \<rparr>"

text \<open>
  \<open>Conversation.findOneAndUpdate(filter, updates, { new: true, runValidators: true })\<close>:
  the update is cast (the trim setters of \<open>title\<close> and \<open>tags\<close>), the validators of
  the updated paths run, and the first document that passes the filter gets every
  given path set, \<open>settings\<close> as one value, and \<open>updatedAt\<close>.
\<close>

definition castUpdate :: "updateBody \<Rightarrow> updateBody" where
  "castUpdate u = u\<lparr>bodyTitle := map_option trim (bodyTitle u),
                    bodyTags := map_option (map trim) (bodyTags u)\<rparr>"

definition validUpdate :: "updateBody \<Rightarrow> bool" where
  "validUpdate u =
     ((case bodyTitle u of None \<Rightarrow> True | Some t \<Rightarrow> t \<noteq> [] \<and> length t \<le> 100)
      \<and> (case bodySettings u of None \<Rightarrow> True | Some st \<Rightarrow> validTemperature (temperature st)))"

definition applyUpdate :: "date \<Rightarrow> updateBody \<Rightarrow> conversation \<Rightarrow> conversation" where
  "applyUpdate now u c =
     c\<lparr>title := (case bodyTitle u of None \<Rightarrow> title c | Some t \<Rightarrow> t),
       tags := (case bodyTags u of None \<Rightarrow> tags c | Some ts \<Rightarrow> ts),
       isArchived := (case bodyIsArchived u of None \<Rightarrow> isArchived c | Some a \<Rightarrow> a),
       isPinned := (case bodyIsPinned u of None \<Rightarrow> isPinned c | Some p \<Rightarrow> p),
       settings := (case bodySettings u of None \<Rightarrow> settings c | Some st \<Rightarrow> st),
       updatedAt := now\<rparr>"

definition findOneAndUpdate ::
  "date \<Rightarrow> objectId \<Rightarrow> objectId \<Rightarrow> updateBody \<Rightarrow> store \<Rightarrow> conversation option saving" where
  "findOneAndUpdate now cid uid u s =
     (let cu = castUpdate u in
      if \<not> validUpdate cu then (Inl ValidationError, s)
      else (case findOne s cid uid of
              None \<Rightarrow> (Inr None, s)
            | Some c \<Rightarrow>
                (Inr (Some (applyUpdate now cu c)),
                 updateFirst (\<lambda>x. oid x = cid \<and> userId x = uid) (applyUpdate now cu) s)))"

definition updateConversation ::
  "date \<Rightarrow> objectId \<Rightarrow> objectId \<Rightarrow> updateBody \<Rightarrow> store \<Rightarrow> summary response" where
  "updateConversation now owner cid body s =
     (case findOneAndUpdate now cid owner (buildUpdates body) s of
        (Inl e, s') \<Rightarrow>
          (Inl (if e = ValidationError \<or> e = CastError then ValidationFailure else ServerError), s')
      | (Inr None, s') \<Rightarrow> (Inl NotFound, s')
      | (Inr (Some c), s') \<Rightarrow> (Inr (getSummary c), s'))"

text \<open>\<open>DELETE /api/conversations/:id\<close>, through \<open>findOneAndDelete\<close>.\<close>

definition deleteConversation :: "objectId \<Rightarrow> objectId \<Rightarrow> store \<Rightarrow> unit response" where
  "deleteConversation owner cid s =
     (case findOne s cid owner of
        None \<Rightarrow> (Inl NotFound, s)
      | Some c \<Rightarrow> (Inr (), removeFirst (\<lambda>x. oid x = cid \<and> userId x = owner) s))"

text \<open>\<open>POST /api/conversations/:id/messages\<close>.\<close>

definition appendMessage ::
  "date \<Rightarrow> objectId \<Rightarrow> objectId \<Rightarrow> string option \<Rightarrow> string option \<Rightarrow> string option \<Rightarrow> store
    \<Rightarrow> summary response" where
  "appendMessage now owner cid r c m s =
     (if \<not> truthy r \<or> \<not> truthy c then (Inl ValidationFailure, s)
      else if \<not> (the r = ''user'' \<or> the r = ''assistant'') then (Inl ValidationFailure, s)
      else (case findOne s cid owner of
              None \<Rightarrow> (Inl NotFound, s)
            | Some conversation \<Rightarrow>
                (case andThen (addMessage now False (the r) (the c) m conversation s)
                        (\<lambda>c1 s1. if length (messages c1) = 1
                                  then updateTitleFromFirstMessage now c1 s1
                                  else (Inr c1, s1)) of
                   (Inl e, s') \<Rightarrow>
                     (Inl (if e = ValidationError \<or> e = CastError then ValidationFailure
                           else ServerError), s')
                 | (Inr c2, s') \<Rightarrow> (Inr (getSummary c2), s'))))"

section \<open>Queries with regular expressions\<close>

text \<open>
  The list and search handlers pass the caller's text to the database as a regular
  expression with option \<open>i\<close>, not as a literal. What the database makes of a text
  is a \<open>regex\<close>: it rejects an ill-formed pattern, and the query fails; it compiles a
  well-formed one to a test on strings.
\<close>

datatype regex = Rejected | Accepted "string \<Rightarrow> bool"

text \<open>
  A \<open>reading\<close> says, pattern by pattern, what the database makes of it; \<open>None\<close> where
  the reading says nothing. The handlers below take the reading as a parameter, so what
  is proved of them for every reading holds whatever the database's regular expressions
  are.
\<close>

type_synonym reading = "string \<Rightarrow> regex option"

text \<open>
  The reading this development computes with, \<open>modelled\<close>, knows two kinds of
  pattern. A pattern of ASCII characters that are not regular-expression syntax, and of
  dots, is well formed: its characters match themselves in either case (option \<open>i\<close>)
  and the dot matches every character but the line feed. Such a pattern with opening
  parentheses added, none of them closed, is ill formed. On every other pattern
  \<open>modelled\<close> is \<open>None\<close>.
\<close>

datatype atom = Lit char | AnyChar

definition isSyntaxChar :: "char \<Rightarrow> bool" where
  "isSyntaxChar c = (c \<in> set ''^$.*+?()[]{}|'' \<or> c = CHR 0x5C)"

definition plainChar :: "char \<Rightarrow> bool" where
  "plainChar c = (\<not> isSyntaxChar c \<and> c \<noteq> CHR 0x00 \<and> (of_char c :: nat) < 128)"

definition toAtom :: "char \<Rightarrow> atom" where
  "toAtom c = (if c = CHR ''.'' then AnyChar else Lit c)"

definition wellFormedPattern :: "string \<Rightarrow> bool" where
  "wellFormedPattern q = list_all (\<lambda>c. c = CHR ''.'' \<or> plainChar c) q"

definition unclosedGroup :: "string \<Rightarrow> bool" where
  "unclosedGroup q =
     (CHR ''('' \<in> set q \<and> list_all (\<lambda>c. c = CHR ''('' \<or> c = CHR ''.'' \<or> plainChar c) q)"

definition toLower :: "char \<Rightarrow> char" where
  "toLower c = (let n = (of_char c :: nat) in if 65 \<le> n \<and> n \<le> 90 then char_of (n + 32) else c)"

fun atomMatches :: "atom \<Rightarrow> char \<Rightarrow> bool" where
  "atomMatches (Lit a) c = (toLower a = toLower c)"
| "atomMatches AnyChar c = (c \<noteq> CHR 0x0A)"

fun matchesAt :: "atom list \<Rightarrow> string \<Rightarrow> bool" where
  "matchesAt [] s = True"
| "matchesAt (a # as) [] = False"
| "matchesAt (a # as) (c # cs) = (atomMatches a c \<and> matchesAt as cs)"

text \<open>An unanchored pattern matches when it matches at some position.\<close>

fun matchesSomewhere :: "atom list \<Rightarrow> string \<Rightarrow> bool" where
  "matchesSomewhere p [] = matchesAt p []"
| "matchesSomewhere p (c # cs) = (matchesAt p (c # cs) \<or> matchesSomewhere p cs)"

definition modelled :: reading where
  "modelled q =
     (if wellFormedPattern q then Some (Accepted (matchesSomewhere (map toAtom q)))
      else if unclosedGroup q then Some Rejected
      else None)"

text \<open>
  The spec's words, for comparison: \<open>q\<close> is a case-insensitive substring of \<open>s\<close>.
\<close>

definition ciSubstring :: "string \<Rightarrow> string \<Rightarrow> bool" where
  "ciSubstring q s = sublist (map toLower q) (map toLower s)"

subsection \<open>Pages\<close>

text \<open>
  \<open>.select('title messageCount lastMessage createdAt updatedAt isArchived isPinned tags')\<close>:
  the stored paths among those named, and \<open>_id\<close>.
\<close>

record listed =
  listedId :: objectId
  listedTitle :: string
  listedCreatedAt :: date
  listedUpdatedAt :: date
  listedIsArchived :: bool
  listedIsPinned :: bool
  listedTags :: "string list"

definition select :: "conversation \<Rightarrow> listed" where
  "select c =
     \<lparr> listedId = oid c, listedTitle = title c, listedCreatedAt = createdAt c,
       listedUpdatedAt = updatedAt c, listedIsArchived = isArchived c,
       listedIsPinned = isPinned c, listedTags = tags c \<rparr>"

record listResult =
  conversations :: "listed list"
  totalPages :: "int option"
  currentPage :: int
  total :: nat

record searchResult = listResult +
  query :: string

text \<open>
  \<open>.sort({ updatedAt: -1 })\<close>; documents with equal \<open>updatedAt\<close> stay in the
  collection's order.
\<close>

definition sortByUpdatedAtDesc :: "conversation list \<Rightarrow> conversation list" where
  "sortByUpdatedAtDesc xs = sort_key (\<lambda>c. - updatedAt c) xs"

text \<open>\<open>.limit(n)\<close>: 0 is no limit, and a negative \<open>n\<close> limits to its absolute value.\<close>

definition limitDocs :: "int \<Rightarrow> 'a list \<Rightarrow> 'a list" where
  "limitDocs n xs = (if n = 0 then xs else take (nat \<bar>n\<bar>) xs)"

text \<open>
  \<open>find(query).sort(...).limit(limit * 1).skip((page - 1) * limit).select(...)\<close>, then
  \<open>countDocuments(query)\<close> and \<open>Math.ceil(total / limit)\<close>. The database rejects a
  negative skip. With \<open>limit = 0\<close> the quotient is not a finite number, and
  \<open>totalPages\<close> is \<open>None\<close>.
\<close>

definition runQuery :: "(conversation \<Rightarrow> bool) \<Rightarrow> int \<Rightarrow> int \<Rightarrow> store \<Rightarrow> failure + listResult" where
  "runQuery P page limit s =
     (let found = filter P s; skip = (page - 1) * limit in
      if skip < 0 then Inl ServerError
      else Inr \<lparr> conversations =
                   map select (limitDocs limit (drop (nat skip) (sortByUpdatedAtDesc found))),
                 totalPages =
                   (if limit = 0 then None
                    else Some \<lceil>real (length found) / real_of_int limit\<rceil>),
                 currentPage = page, total = length found \<rparr>)"

text \<open>
  The handler of \<open>GET /api/conversations\<close>. \<open>page\<close> and \<open>limit\<close> are the numbers the
  query strings stand for, \<open>archived\<close> and \<open>search\<close> the strings themselves; the
  defaults are the handler's. \<open>listQuery\<close> is the query object: owner, archived flag
  and, for a non-empty search text, the regular expression on the title or on some
  message's content. A pattern the database rejects makes \<open>find\<close> throw, and the catch
  block answers 500.
\<close>

definition listQuery :: "objectId \<Rightarrow> bool \<Rightarrow> (string \<Rightarrow> bool) option \<Rightarrow> conversation \<Rightarrow> bool" where
  "listQuery owner arch rx c =
     (userId c = owner \<and> isArchived c = arch
      \<and> (case rx of None \<Rightarrow> True
          | Some test \<Rightarrow> test (title c) \<or> list_ex (\<lambda>m. test (content m)) (messages c)))"

definition listHandler ::
  "reading \<Rightarrow> store \<Rightarrow> objectId \<Rightarrow> int option \<Rightarrow> int option \<Rightarrow> string option \<Rightarrow> string option
    \<Rightarrow> (failure + listResult) option" where
  "listHandler rd s owner page limit archived search =
     (let pg = (case page of None \<Rightarrow> 1 | Some n \<Rightarrow> n);
          lim = (case limit of None \<Rightarrow> 20 | Some n \<Rightarrow> n);
          arch = (archived = Some ''true'')
      in if \<not> truthy search then Some (runQuery (listQuery owner arch None) pg lim s)
         else (case rd (the search) of
                 None \<Rightarrow> None
               | Some Rejected \<Rightarrow> Some (Inl ServerError)
               | Some (Accepted test) \<Rightarrow>
                   Some (runQuery (listQuery owner arch (Some test)) pg lim s)))"

text \<open>The list handler under the modelled reading.\<close>

definition listConversations ::
  "store \<Rightarrow> objectId \<Rightarrow> int option \<Rightarrow> int option \<Rightarrow> string option \<Rightarrow> string option
    \<Rightarrow> (failure + listResult) option" where
  "listConversations s owner page limit archived search =
     listHandler modelled s owner page limit archived search"

text \<open>
  The body of the handler registered for \<open>GET /search\<close>: \<open>new RegExp(q, 'i')\<close> throws
  on an ill-formed pattern, and the catch block answers 500. Whether a request reaches
  this handler is the router's matter, below.
\<close>

definition searchQuery :: "objectId \<Rightarrow> (string \<Rightarrow> bool) \<Rightarrow> conversation \<Rightarrow> bool" where
  "searchQuery owner test c =
     (userId c = owner
      \<and> (test (title c) \<or> list_ex (\<lambda>m. test (content m)) (messages c)
         \<or> list_ex test (tags c)))"

definition withQuery :: "string \<Rightarrow> failure + listResult \<Rightarrow> failure + searchResult" where
  "withQuery q r = (case r of Inl e \<Rightarrow> Inl e | Inr x \<Rightarrow> Inr (listResult.extend x \<lparr> query = q \<rparr>))"

definition searchHandler ::
  "reading \<Rightarrow> store \<Rightarrow> objectId \<Rightarrow> string option \<Rightarrow> int option \<Rightarrow> int option
    \<Rightarrow> (failure + searchResult) option" where
  "searchHandler rd s owner q page limit =
     (let pg = (case page of None \<Rightarrow> 1 | Some n \<Rightarrow> n);
          lim = (case limit of None \<Rightarrow> 20 | Some n \<Rightarrow> n)
      in if \<not> truthy q then Some (Inl ValidationFailure)
         else (case rd (the q) of
                 None \<Rightarrow> None
               | Some Rejected \<Rightarrow> Some (Inl ServerError)
               | Some (Accepted test) \<Rightarrow>
                   Some (withQuery (the q) (runQuery (searchQuery owner test) pg lim s))))"

section \<open>The router of routes/conversations.js\<close>

text \<open>
  The routes in the order the file registers them. A request goes to the first route
  whose HTTP verb and path match it, and that handler answers: none of the handlers passes
  the request on. A path is the list of its segments below \<open>/api/conversations\<close>; a
  parameter matches any segment, a literal matches its own text in either case.
\<close>

datatype verb = GET | POST | PUT | DELETE

datatype segment = Literal string | Param string

datatype route =
    ListRoute | CreateRoute | GetRoute | UpdateRoute | DeleteRoute | MessagesRoute | SearchRoute

definition routes :: "(verb \<times> segment list \<times> route) list" where
  "routes =
     [(GET, [], ListRoute),
      (POST, [], CreateRoute),
      (GET, [Param ''id''], GetRoute),
      (PUT, [Param ''id''], UpdateRoute),
      (DELETE, [Param ''id''], DeleteRoute),
      (POST, [Param ''id'', Literal ''messages''], MessagesRoute),
      (GET, [Literal ''search''], SearchRoute)]"

fun matchPath :: "segment list \<Rightarrow> string list \<Rightarrow> (string \<times> string) list option" where
  "matchPath [] [] = Some []"
| "matchPath (Literal l # ps) (x # xs) =
     (if map toLower l = map toLower x then matchPath ps xs else None)"
| "matchPath (Param n # ps) (x # xs) =
     (if x = [] then None else map_option ((#) (n, x)) (matchPath ps xs))"
| "matchPath ps xs = None"

fun firstMatch ::
  "(verb \<times> segment list \<times> route) list \<Rightarrow> verb \<Rightarrow> string list
    \<Rightarrow> (route \<times> (string \<times> string) list) option" where
  "firstMatch [] m path = None"
| "firstMatch ((m', pat, h) # rs) m path =
     (if m' = m then (case matchPath pat path of
                        Some params \<Rightarrow> Some (h, params)
                      | None \<Rightarrow> firstMatch rs m path)
      else firstMatch rs m path)"

definition dispatch :: "verb \<Rightarrow> string list \<Rightarrow> (route \<times> (string \<times> string) list) option" where
  "dispatch m path = firstMatch routes m path"

text \<open>
  The id of a request is a string; the query on \<open>_id\<close> casts it to an ObjectId. The
  string form of an ObjectId is 24 hexadecimal digits, and the cast of any other string
  throws a \<open>CastError\<close>.
\<close>

definition hexDigit :: "char \<Rightarrow> nat option" where
  "hexDigit c =
     (let n = (of_char c :: nat) in
      if 48 \<le> n \<and> n \<le> 57 then Some (n - 48)
      else if 97 \<le> n \<and> n \<le> 102 then Some (n - 87)
      else if 65 \<le> n \<and> n \<le> 70 then Some (n - 55)
      else None)"

definition castObjectId :: "string \<Rightarrow> objectId option" where
  "castObjectId x =
     (if length x = 24 \<and> list_all (\<lambda>c. hexDigit c \<noteq> None) x
      then Some (foldl (\<lambda>n c. 16 * n + the (hexDigit c)) 0 x)
      else None)"

text \<open>
  The handler of \<open>GET /:id\<close> on the request's string: a \<open>CastError\<close> is answered 400,
  \<open>Invalid conversation ID\<close>.
\<close>

definition getById :: "store \<Rightarrow> objectId \<Rightarrow> string \<Rightarrow> failure + conversation" where
  "getById s owner x =
     (case castObjectId x of
        None \<Rightarrow> Inl ValidationFailure
      | Some cid \<Rightarrow> getConversation s owner cid)"

text \<open>
  The answer to a GET request of an authenticated user below \<open>/api/conversations\<close>:
  its path, and the query string's fields. A path that no route matches is answered 404
  by the application.
\<close>

record getQuery =
  queryPage :: "int option"
  queryLimit :: "int option"
  queryArchived :: "string option"
  querySearch :: "string option"
  queryQ :: "string option"

datatype body = Page listResult | Document conversation | Hits searchResult

definition answered :: "('a \<Rightarrow> body) \<Rightarrow> failure + 'a \<Rightarrow> failure + body" where
  "answered f r = (case r of Inl e \<Rightarrow> Inl e | Inr x \<Rightarrow> Inr (f x))"

definition serveGet ::
  "reading \<Rightarrow> store \<Rightarrow> objectId \<Rightarrow> string list \<Rightarrow> getQuery \<Rightarrow> (failure + body) option" where
  "serveGet rd s owner path qry =
     (case dispatch GET path of
        Some (ListRoute, params) \<Rightarrow>
          map_option (answered Page)
            (listHandler rd s owner (queryPage qry) (queryLimit qry) (queryArchived qry)
               (querySearch qry))
      | Some (GetRoute, params) \<Rightarrow>
          (case map_of params ''id'' of
             Some x \<Rightarrow> Some (answered Document (getById s owner x))
           | None \<Rightarrow> Some (Inl ServerError))
      | Some (SearchRoute, params) \<Rightarrow>
          map_option (answered Hits)
            (searchHandler rd s owner (queryQ qry) (queryPage qry) (queryLimit qry))
      | _ \<Rightarrow> Some (Inl NotFound))"

section \<open>The chat relay\<close>

text \<open>
  \<open>POST /api/chat\<close>, the route with conversation support. The provider is a parameter:
  given the request's messages, each a pair of role and content, it answers with the
  reply's text or fails, and \<open>Inl st\<close> is a failure that the provider reported with HTTP
  status \<open>st\<close> (401 for a refused key, 429 for rate limiting), which the client throws
  as \<open>ProviderFailure st\<close>.
\<close>

type_synonym provider = "(string \<times> string) list \<Rightarrow> nat option + string"

record chatReply =
  reply :: string
  conversationId :: "objectId option"

text \<open>\<open>conversation.messages.slice(-10)\<close>, each message reduced to role and content.\<close>

definition recentMessages :: "conversation \<Rightarrow> message list" where
  "recentMessages c = drop (length (messages c) - 10) (messages c)"

definition conversationContext :: "store \<Rightarrow> objectId option \<Rightarrow> objectId option \<Rightarrow> (string \<times> string) list" where
  "conversationContext s cid uid =
     (case (cid, uid) of
        (Some i, Some u) \<Rightarrow>
          (case findOne s i u of
             None \<Rightarrow> []
           | Some c \<Rightarrow> map (\<lambda>m. (role m, content m)) (recentMessages c))
      | _ \<Rightarrow> [])"

text \<open>The messages of the provider request.\<close>

definition providerMessages :: "store \<Rightarrow> string \<Rightarrow> objectId option \<Rightarrow> objectId option \<Rightarrow> (string \<times> string) list" where
  "providerMessages s msg cid uid = conversationContext s cid uid @ [(''user'', msg)]"

text \<open>The catch block: \<open>error.response?.status\<close> decides the answer.\<close>

definition chatFailure :: "exn \<Rightarrow> failure" where
  "chatFailure e =
     (if responseStatus e = Some 401 then AuthFailure
      else if responseStatus e = Some 429 then RateLimited
      else ProviderError)"

definition saveTurn :: "date \<Rightarrow> string \<Rightarrow> string \<Rightarrow> objectId option \<Rightarrow> objectId option \<Rightarrow> store \<Rightarrow> unit saving" where
  "saveTurn now msg aiResponse cid uid s =
     (case (cid, uid) of
        (Some i, Some u) \<Rightarrow>
          (case findOne s i u of
             None \<Rightarrow> (Inr (), s)
           | Some c \<Rightarrow>
               andThen (addMessage now False ''user'' msg None c s)
                 (\<lambda>c1 s1. andThen (addMessage now False ''assistant'' aiResponse None c1 s1)
                    (\<lambda>c2 s2. (Inr (), s2))))
      | _ \<Rightarrow> (Inr (), s))"

definition chat ::
  "provider \<Rightarrow> date \<Rightarrow> string option \<Rightarrow> objectId option \<Rightarrow> objectId option \<Rightarrow> store
    \<Rightarrow> chatReply response" where
  "chat prov now message cid uid s =
     (if \<not> truthy message then (Inl ValidationFailure, s)
      else (case prov (providerMessages s (the message) cid uid) of
              Inl st \<Rightarrow> (Inl (chatFailure (ProviderFailure st)), s)
            | Inr aiResponse \<Rightarrow>
                (case saveTurn now (the message) aiResponse cid uid s of
                   (Inl e, s') \<Rightarrow> (Inl (chatFailure e), s')
                 | (Inr u, s') \<Rightarrow> (Inr \<lparr> reply = aiResponse, conversationId = cid \<rparr>, s'))))"

section \<open>Runs of the service\<close>

text \<open>
  A request names its handler and carries what the handler reads: the clock, the
  ObjectId a new document draws, the provider's behaviour. \<open>serve\<close> is the collection
  after the request; a list, get or search request is a GET request, and whichever
  handler answers it, none of them writes.
\<close>

datatype request =
    Create date objectId objectId "string option" "string option"
  | Get objectId objectId
  | List objectId "int option" "int option" "string option" "string option"
  | Update date objectId objectId updateBody
  | Delete objectId objectId
  | Append date objectId objectId "string option" "string option" "string option"
  | Search objectId "string option" "int option" "int option"
  | Chat provider date "string option" "objectId option" "objectId option"

fun serve :: "request \<Rightarrow> store \<Rightarrow> store" where
  "serve (Create now newId owner ttl initialMessage) s =
     snd (createConversation now newId owner ttl initialMessage s)"
| "serve (Get owner cid) s = s"
| "serve (List owner page limit archived search) s = s"
| "serve (Update now owner cid body) s = snd (updateConversation now owner cid body s)"
| "serve (Delete owner cid) s = snd (deleteConversation owner cid s)"
| "serve (Append now owner cid r c m) s = snd (appendMessage now owner cid r c m s)"
| "serve (Search owner q page limit) s = s"
| "serve (Chat prov now message cid uid) s = snd (chat prov now message cid uid s)"

text \<open>The collection after a sequence of requests, from the empty collection.\<close>

definition run :: "request list \<Rightarrow> store" where
  "run rs = fold serve rs []"

section \<open>Example data\<close>

text \<open>A stored conversation of user 1, and a body that sets one setting.\<close>

definition tripPlanning :: conversation where
  "tripPlanning =
     \<lparr> oid = 7, userId = 1, title = ''Trip Planning'', messages = [],
       isArchived = False, isPinned = False, tags = [], totalTokens = 0,
       model = ''gpt-4o-mini'',
       settings = \<lparr> temperature = Some 0.7, maxTokens = Some 1000 \<rparr>,
       createdAt = 10, updatedAt = 10 \<rparr>"

definition settingsBody :: "real option \<Rightarrow> real option \<Rightarrow> updateBody" where
  "settingsBody t n =
     \<lparr> bodyTitle = None, bodyTags = None, bodyIsArchived = None, bodyIsPinned = None,
       bodySettings = Some \<lparr> temperature = t, maxTokens = n \<rparr> \<rparr>"

text \<open>Forty-five conversations of user 1, none archived, updated at 0, 1, ..., 44.\<close>

definition fortyFive :: store where
  "fortyFive = map (\<lambda>i. tripPlanning\<lparr>oid := i, updatedAt := int i\<rparr>) [0..<45]"

text \<open>
  \<open>sameTokens s d\<close>: the document \<open>d\<close> carries the \<open>totalTokens\<close> that the
  conversation of its id has in \<open>s\<close>, or its id is not in \<open>s\<close> and it carries 0.
\<close>

definition sameTokens :: "store \<Rightarrow> conversation \<Rightarrow> bool" where
  "sameTokens s d =
     ((\<exists>c \<in> set s. oid c = oid d \<and> totalTokens c = totalTokens d)
      \<or> (oid d \<notin> oid ` set s \<and> totalTokens d = 0))"

text \<open>
  What the database and the validators keep of every collection the handlers produce:
  ids are unique and every stored document passes validation.
\<close>

definition wellFormed :: "store \<Rightarrow> bool" where
  "wellFormed s = (distinct (map oid s) \<and> list_all validConversation s)"

section \<open>Facts about the collection\<close>

lemma findOne_SomeD:
  "findOne s cid uid = Some c \<Longrightarrow> c \<in> set s \<and> oid c = cid \<and> userId c = uid"
  unfolding findOne_def by (auto simp: find_Some_iff)


lemma map_replace_absent: "c \<notin> set s \<Longrightarrow> map (\<lambda>x. if x = c then d else x) s = s"
  by (induction s) auto

lemma updateFirst_distinct:
  assumes "distinct (map oid s)" and "c \<in> set s"
  shows "updateFirst (\<lambda>x. oid x = oid c) f s = map (\<lambda>x. if x = c then f c else x) s"
  using assms
proof (induction s)
  case Nil
  then show ?case by simp
next
  case (Cons a s)
  show ?case
  proof (cases "a = c")
    case True
    with Cons.prems have "c \<notin> set s" by auto
    with True show ?thesis by (simp add: map_replace_absent)
  next
    case False
    with Cons.prems have "c \<in> set s" "oid a \<noteq> oid c" by auto
    with Cons False show ?thesis by simp
  qed
qed

lemma updateFirst_again:
  "P d \<Longrightarrow> updateFirst P (\<lambda>x. d) (updateFirst P (\<lambda>x. d) s) = updateFirst P (\<lambda>x. d) s"
  by (induction s) auto

lemma updateFirst_member:
  "c \<in> set s \<Longrightarrow> P c \<Longrightarrow> d \<in> set (updateFirst P (\<lambda>x. d) s)"
  by (induction s) auto

lemma list_ex_oid: "c \<in> set s \<Longrightarrow> list_ex (\<lambda>x. oid x = oid c) s"
  by (auto simp: list_ex_iff)

lemma save_loaded:
  assumes "validConversation d" and "c \<in> set s" and "oid d = oid c"
  shows "save now False d s =
           (Inr (d\<lparr>updatedAt := now\<rparr>), updateFirst (\<lambda>x. oid x = oid c) (\<lambda>x. d\<lparr>updatedAt := now\<rparr>) s)"
  using assms list_ex_oid [of c s] by (simp add: save_def Let_def)

lemma save_invalid: "\<not> validConversation d \<Longrightarrow> save now isNew d s = (Inl ValidationError, s)"
  by (simp add: save_def)

lemma valid_pushMessage:
  "validConversation (pushMessage now r c m doc) =
     (validConversation doc \<and> (r = ''user'' \<or> r = ''assistant'') \<and> trim c \<noteq> [])"
  by (auto simp: pushMessage_def validConversation_def validMessage_def Let_def)

lemma valid_updatedAt [simp]: "validConversation (d\<lparr>updatedAt := t\<rparr>) = validConversation d"
  by (simp add: validConversation_def)

lemma oid_pushMessage [simp]: "oid (pushMessage now r c m doc) = oid doc"
  by (simp add: pushMessage_def Let_def)

lemma addMessage_loaded:
  assumes "validConversation doc" and "doc \<in> set s"
    and "r = ''user'' \<or> r = ''assistant''"
  shows "addMessage now False r c m doc s =
     (if trim c = [] then (Inl ValidationError, s)
      else (Inr ((pushMessage now r c m doc)\<lparr>updatedAt := now\<rparr>),
            updateFirst (\<lambda>x. oid x = oid doc) (\<lambda>x. (pushMessage now r c m doc)\<lparr>updatedAt := now\<rparr>) s))"
proof (cases "trim c = []")
  case True
  then show ?thesis by (simp add: addMessage_def save_invalid valid_pushMessage)
next
  case False
  with assms have "validConversation (pushMessage now r c m doc)"
    by (simp add: valid_pushMessage)
  from save_loaded [OF this assms(2), of now] False show ?thesis
    by (simp add: addMessage_def)
qed

text \<open>A stored title is never empty, so the derivation only saves the document again.\<close>

lemma updateTitle_loaded:
  assumes "validConversation d" and "d \<in> set s" and "updatedAt d = now"
  shows "updateTitleFromFirstMessage now d s
           = (Inr d, updateFirst (\<lambda>x. oid x = oid d) (\<lambda>x. d) s)"
proof -
  from assms(1) have "title d \<noteq> []" by (simp add: validConversation_def)
  moreover from assms(3) have "d\<lparr>updatedAt := now\<rparr> = d" by simp
  ultimately show ?thesis
    using save_loaded [OF assms(1,2), of now]
    by (simp add: updateTitleFromFirstMessage_def split: option.splits)
qed

lemma updateFirst_twice:
  "P d \<Longrightarrow> updateFirst P (\<lambda>x. e) (updateFirst P (\<lambda>x. d) s) = updateFirst P (\<lambda>x. e) s"
  by (induction s) auto

lemma conversationContext_found:
  assumes "findOne s cid owner = Some conv"
  shows "conversationContext s (Some cid) (Some owner)
           = map (\<lambda>m. (role m, content m)) (drop (length (messages conv) - 10) (messages conv))"
  using assms by (simp add: conversationContext_def recentMessages_def)





lemma sameTokens_member: "c \<in> set s \<Longrightarrow> sameTokens s c"
  by (auto simp: sameTokens_def)

lemma sameTokens_cong:
  "oid d = oid e \<Longrightarrow> totalTokens d = totalTokens e \<Longrightarrow> sameTokens s d = sameTokens s e"
  by (simp add: sameTokens_def)

lemma set_updateFirst: "x \<in> set (updateFirst P (\<lambda>y. d) s) \<Longrightarrow> x = d \<or> x \<in> set s"
  by (induction s) (auto split: if_splits)

lemma set_updateFirst_fun:
  "x \<in> set (updateFirst P f s) \<Longrightarrow> x \<in> set s \<or> (\<exists>c \<in> set s. P c \<and> x = f c)"
  by (induction s) (auto split: if_splits)

lemma set_removeFirst: "x \<in> set (removeFirst P s) \<Longrightarrow> x \<in> set s"
  by (induction s) (auto split: if_splits)

lemma save_loaded_tokens:
  assumes "list_all (sameTokens s0) s" and "sameTokens s0 doc"
    and "save now False doc s = (r, s')"
  shows "list_all (sameTokens s0) s' \<and> (\<forall>d. r = Inr d \<longrightarrow> sameTokens s0 d)"
proof (cases "validConversation doc \<and> list_ex (\<lambda>c. oid c = oid doc) s")
  case False
  with assms show ?thesis by (auto simp: save_def split: if_splits)
next
  case True
  let ?d = "doc\<lparr>updatedAt := now\<rparr>"
  from True assms(3) have r: "r = Inr ?d"
    and s': "s' = updateFirst (\<lambda>c. oid c = oid doc) (\<lambda>c. ?d) s"
    by (auto simp: save_def Let_def)
  have d: "sameTokens s0 ?d" using assms(2) by (simp add: sameTokens_def)
  have "sameTokens s0 x" if "x \<in> set s'" for x
    using set_updateFirst [of x "\<lambda>c. oid c = oid doc" ?d s] that s' d assms(1)
    by (auto simp: list_all_iff)
  with r d show ?thesis by (simp add: list_all_iff)
qed

lemma save_new_tokens:
  assumes "totalTokens doc = 0" and "save now True doc s0 = (r, s')"
  shows "list_all (sameTokens s0) s' \<and> (\<forall>d. r = Inr d \<longrightarrow> sameTokens s0 d)"
proof (cases "validConversation doc \<and> \<not> list_ex (\<lambda>c. oid c = oid doc) s0")
  case False
  with assms(2) have "s' = s0" and "\<forall>d. r \<noteq> Inr d"
    by (auto simp: save_def split: if_splits)
  then show ?thesis by (simp add: list_all_iff sameTokens_member)
next
  case True
  let ?d = "doc\<lparr>createdAt := now, updatedAt := now\<rparr>"
  from True assms(2) have r: "r = Inr ?d" and s': "s' = s0 @ [?d]"
    by (auto simp: save_def Let_def)
  from True have "oid doc \<notin> oid ` set s0" by (auto simp: list_ex_iff)
  with assms(1) have "sameTokens s0 ?d" by (simp add: sameTokens_def)
  with r s' show ?thesis by (simp add: list_all_iff sameTokens_member)
qed

lemma sameTokens_pushMessage [simp]:
  "sameTokens s0 (pushMessage now r c m doc) = sameTokens s0 doc"
  by (simp add: sameTokens_def pushMessage_def Let_def)

lemma addMessage_loaded_tokens:
  assumes "list_all (sameTokens s0) s" and "sameTokens s0 doc"
    and "addMessage now False r c m doc s = (res, s')"
  shows "list_all (sameTokens s0) s' \<and> (\<forall>d. res = Inr d \<longrightarrow> sameTokens s0 d)"
  using save_loaded_tokens [of s0 s "pushMessage now r c m doc" now res s'] assms
  by (simp add: addMessage_def)

lemma updateTitle_tokens:
  assumes "list_all (sameTokens s0) s" and "sameTokens s0 doc"
    and "updateTitleFromFirstMessage now doc s = (res, s')"
  shows "list_all (sameTokens s0) s' \<and> (\<forall>d. res = Inr d \<longrightarrow> sameTokens s0 d)"
proof -
  have t: "sameTokens s0 (doc\<lparr>title := x\<rparr>)" for x
    using assms(2) by (simp add: sameTokens_def)
  from assms(3) obtain d where sv: "save now False d s = (res, s')" and d: "sameTokens s0 d"
    using t assms(2)
    by (auto simp: updateTitleFromFirstMessage_def split: option.splits if_splits)
  show ?thesis by (rule save_loaded_tokens [OF assms(1) d sv])
qed

lemma sameTokens_refl: "list_all (sameTokens s) s"
  by (simp add: list_all_iff sameTokens_member)

lemma create_tokens: "list_all (sameTokens s) (snd (createConversation now newId owner ttl im s))"
proof (cases "truthy im")
  case False
  let ?c = "newConversation newId owner (orElse ttl ''New Chat'')"
  obtain r s' where sv: "save now True ?c s = (r, s')" by (cases "save now True ?c s")
  have "totalTokens ?c = 0" by (simp add: newConversation_def)
  from save_new_tokens [OF this sv] have "list_all (sameTokens s) s'" by simp
  moreover have "snd (createConversation now newId owner ttl im s) = s'"
    using False sv by (simp add: createConversation_def Let_def split: sum.splits)
  ultimately show ?thesis by simp
next
  case True
  let ?c = "pushMessage now ''user'' (the im) None (newConversation newId owner (orElse ttl ''New Chat''))"
  obtain r1 s1 where a: "save now True ?c s = (r1, s1)" by (cases "save now True ?c s")
  have "totalTokens ?c = 0" by (simp add: newConversation_def pushMessage_def Let_def)
  from save_new_tokens [OF this a]
  have k1: "list_all (sameTokens s) s1" and d1: "\<forall>d. r1 = Inr d \<longrightarrow> sameTokens s d" by simp_all
  show ?thesis
  proof (cases r1)
    case (Inl e)
    with True a have "snd (createConversation now newId owner ttl im s) = s1"
      by (simp add: createConversation_def addMessage_def andThen_def Let_def)
    with k1 show ?thesis by simp
  next
    case (Inr c1)
    with d1 have c1: "sameTokens s c1" by simp
    obtain r2 s2 where u: "updateTitleFromFirstMessage now c1 s1 = (r2, s2)"
      by (cases "updateTitleFromFirstMessage now c1 s1")
    from updateTitle_tokens [OF k1 c1 u]
    have k2: "list_all (sameTokens s) s2" and d2: "\<forall>d. r2 = Inr d \<longrightarrow> sameTokens s d" by simp_all
    show ?thesis
    proof (cases r2)
      case (Inl e)
      with True a Inr u have "snd (createConversation now newId owner ttl im s) = s2"
        by (simp add: createConversation_def addMessage_def andThen_def Let_def)
      with k2 show ?thesis by simp
    next
      case r2: (Inr c2)
      with d2 have c2: "sameTokens s c2" by simp
      obtain r3 s3 where v: "save now False c2 s2 = (r3, s3)" by (cases "save now False c2 s2")
      from save_loaded_tokens [OF k2 c2 v] have k3: "list_all (sameTokens s) s3" by simp
      from True a Inr u r2 v have "snd (createConversation now newId owner ttl im s) = s3"
        by (simp add: createConversation_def addMessage_def andThen_def Let_def split: sum.splits)
      with k3 show ?thesis by simp
    qed
  qed
qed

lemma update_tokens: "list_all (sameTokens s) (snd (updateConversation now owner cid body s))"
proof -
  have a: "sameTokens s (applyUpdate now u c)" if "c \<in> set s" for u c
    using that by (auto simp: sameTokens_def applyUpdate_def)
  have "sameTokens s x"
    if "x \<in> set (updateFirst P (applyUpdate now u) s)" for x P u
    using set_updateFirst_fun [OF that] a by (auto simp: sameTokens_member)
  then have "list_all (sameTokens s) (snd (findOneAndUpdate now cid owner u s))" for u
    by (auto simp: findOneAndUpdate_def Let_def list_all_iff sameTokens_member
        split: option.splits)
  moreover have "snd (updateConversation now owner cid body s)
      = snd (findOneAndUpdate now cid owner (buildUpdates body) s)"
    by (simp add: updateConversation_def split: prod.splits sum.splits option.splits)
  ultimately show ?thesis by simp
qed

lemma delete_tokens: "list_all (sameTokens s) (snd (deleteConversation owner cid s))"
  by (auto simp: deleteConversation_def list_all_iff sameTokens_member
      dest: set_removeFirst split: option.splits)

lemma append_tokens: "list_all (sameTokens s) (snd (appendMessage now owner cid r c m s))"
proof (cases "findOne s cid owner")
  case None
  then show ?thesis by (simp add: appendMessage_def sameTokens_refl)
next
  case (Some conv)
  then have conv: "sameTokens s conv" by (auto dest: findOne_SomeD simp: sameTokens_member)
  obtain r1 s1 where a: "addMessage now False (the r) (the c) m conv s = (r1, s1)"
    by (cases "addMessage now False (the r) (the c) m conv s")
  from addMessage_loaded_tokens [OF sameTokens_refl conv a]
  have k1: "list_all (sameTokens s) s1" and d1: "\<forall>d. r1 = Inr d \<longrightarrow> sameTokens s d" by simp_all
  show ?thesis
  proof (cases r1)
    case (Inl e)
    with Some a k1 show ?thesis
      by (simp add: appendMessage_def andThen_def sameTokens_refl)
  next
    case (Inr c1)
    with d1 have c1: "sameTokens s c1" by simp
    obtain r2 s2 where u: "updateTitleFromFirstMessage now c1 s1 = (r2, s2)"
      by (cases "updateTitleFromFirstMessage now c1 s1")
    from updateTitle_tokens [OF k1 c1 u] have k2: "list_all (sameTokens s) s2" by simp
    from Some a Inr u k1 k2 show ?thesis
      by (simp add: appendMessage_def andThen_def sameTokens_refl split: sum.splits)
  qed
qed

lemma chat_tokens: "list_all (sameTokens s) (snd (chat prov now message cid uid s))"
proof -
  have turn: "list_all (sameTokens s) (snd (saveTurn now msg ai cid uid s))" for msg ai
  proof (cases "\<exists>i u conv. cid = Some i \<and> uid = Some u \<and> findOne s i u = Some conv")
    case False
    then show ?thesis
      by (auto simp: saveTurn_def sameTokens_refl split: option.splits)
  next
    case True
    then obtain i u conv where f: "cid = Some i" "uid = Some u" "findOne s i u = Some conv"
      by blast
    then have conv: "sameTokens s conv" by (auto dest: findOne_SomeD simp: sameTokens_member)
    obtain r1 s1 where a: "addMessage now False ''user'' msg None conv s = (r1, s1)"
      by (cases "addMessage now False ''user'' msg None conv s")
    from addMessage_loaded_tokens [OF sameTokens_refl conv a]
    have k1: "list_all (sameTokens s) s1" and d1: "\<forall>d. r1 = Inr d \<longrightarrow> sameTokens s d"
      by simp_all
    show ?thesis
    proof (cases r1)
      case (Inl e)
      with f a k1 show ?thesis by (simp add: saveTurn_def andThen_def)
    next
      case (Inr c1)
      with d1 have c1: "sameTokens s c1" by simp
      obtain r2 s2 where b: "addMessage now False ''assistant'' ai None c1 s1 = (r2, s2)"
        by (cases "addMessage now False ''assistant'' ai None c1 s1")
      from addMessage_loaded_tokens [OF k1 c1 b] have "list_all (sameTokens s) s2" by simp
      with f a Inr b show ?thesis
        by (simp add: saveTurn_def andThen_def split: sum.splits)
    qed
  qed
  show ?thesis
  proof (cases "truthy message")
    case False
    then show ?thesis by (simp add: chat_def sameTokens_refl)
  next
    case True
    show ?thesis
    proof (cases "prov (providerMessages s (the message) cid uid)")
      case (Inl st)
      with True show ?thesis by (simp add: chat_def sameTokens_refl)
    next
      case (Inr ai)
      obtain r2 s2 where t: "saveTurn now (the message) ai cid uid s = (r2, s2)"
        by (cases "saveTurn now (the message) ai cid uid s")
      with True Inr have "snd (chat prov now message cid uid s) = s2"
        by (simp add: chat_def split: sum.splits)
      with turn [of "the message" ai] t show ?thesis by simp
    qed
  qed
qed

lemma serve_tokens: "list_all (sameTokens s) (serve r s)"
  by (cases r)
    (simp_all add: create_tokens update_tokens delete_tokens append_tokens chat_tokens
      sameTokens_refl)

lemma fold_serve_zero:
  "list_all (\<lambda>c. totalTokens c = 0) s \<Longrightarrow> list_all (\<lambda>c. totalTokens c = 0) (fold serve rs s)"
proof (induction rs arbitrary: s)
  case Nil
  then show ?case by simp
next
  case (Cons r rs)
  have "list_all (\<lambda>c. totalTokens c = 0) (serve r s)"
    using serve_tokens [of s r] Cons.prems
    by (auto simp: list_all_iff sameTokens_def)
  then show ?case using Cons.IH by simp
qed

lemma round_up_div:
  fixes n l :: int
  assumes "0 < l"
  shows "- ((- n) div l) = (n + l - 1) div l"
proof (cases "n mod l = 0")
  case True
  then have "(- n) div l = - (n div l)"
    using assms by (simp add: zdiv_zminus1_eq_if)
  moreover have "(n + l - 1) div l = n div l"
  proof -
    have "n + l - 1 = (l - 1) + (n div l) * l" using True mult_div_mod_eq [of l n] by (simp add: algebra_simps)
    then have "(n + l - 1) div l = (l - 1) div l + n div l"
      using assms by (simp only: div_mult_self1)
    with assms show ?thesis by (simp add: div_pos_pos_trivial)
  qed
  ultimately show ?thesis by simp
next
  case False
  then have "(- n) div l = - (n div l) - 1"
    using assms by (simp add: zdiv_zminus1_eq_if)
  moreover have "(n + l - 1) div l = n div l + 1"
  proof -
    have "0 \<le> n mod l" using assms by simp
    with False have "0 < n mod l" by linarith
    moreover have "n mod l < l" using assms by simp
    ultimately have r: "0 < n mod l" "n mod l < l" .
    have "n + l - 1 = (n mod l - 1) + (n div l + 1) * l"
      using mult_div_mod_eq [of l n] by (simp add: algebra_simps)
    then have "(n + l - 1) div l = (n mod l - 1) div l + (n div l + 1)"
      using assms by (simp only: div_mult_self1)
    with r show ?thesis by (simp add: div_pos_pos_trivial)
  qed
  ultimately show ?thesis by simp
qed


lemma ceiling_quotient:
  "\<lceil>real n / real_of_int l\<rceil> = - ((- int n) div l)"
proof -
  have "\<lceil>real n / real_of_int l\<rceil> = - \<lfloor>real_of_int (- int n) / real_of_int l\<rfloor>"
    by (simp add: ceiling_def)
  also have "\<dots> = - ((- int n) div l)"
    by (simp only: floor_divide_of_int_eq)
  finally show ?thesis .
qed

lemma sorted_desc: "sorted_wrt (\<lambda>a b. updatedAt b \<le> updatedAt a) (sortByUpdatedAtDesc xs)"
proof -
  have "sorted (map (\<lambda>c. - updatedAt c) (sort_key (\<lambda>c. - updatedAt c) xs))"
    by (rule sorted_sort_key)
  then show ?thesis by (simp add: sorted_map sortByUpdatedAtDesc_def)
qed

lemma limitDocs_pos: "1 \<le> n \<Longrightarrow> limitDocs n xs = take (nat n) xs"
  by (simp add: limitDocs_def)

lemma fortyFive_listed: "filter (listQuery 1 False None) fortyFive = fortyFive"
  by (simp add: fortyFive_def listQuery_def tripPlanning_def filter_map comp_def)

lemma length_fortyFive: "length fortyFive = 45"
  by (simp add: fortyFive_def)

lemma runQuery_div:
  "runQuery P page limit s =
     (if (page - 1) * limit < 0 then Inl ServerError
      else Inr \<lparr> conversations =
                   map select (limitDocs limit (drop (nat ((page - 1) * limit))
                     (sortByUpdatedAtDesc (filter P s)))),
                 totalPages =
                   (if limit = 0 then None else Some (- ((- int (length (filter P s))) div limit))),
                 currentPage = page, total = length (filter P s) \<rparr>)"
  by (simp add: runQuery_def Let_def ceiling_quotient)

subsection \<open>The modelled reading\<close>

lemma toAtom_plain: "list_all plainChar q \<Longrightarrow> map toAtom q = map Lit q"
  by (induction q) (auto simp: toAtom_def plainChar_def isSyntaxChar_def)

lemma matchesAt_literal: "matchesAt (map Lit q) s = prefix (map toLower q) (map toLower s)"
  by (induction "map Lit q" s arbitrary: q rule: matchesAt.induct) auto

lemma matchesSomewhere_literal: "matchesSomewhere (map Lit q) s = ciSubstring q s"
  unfolding ciSubstring_def
proof (induction s)
  case Nil
  then show ?case by (cases q) simp_all
next
  case (Cons c s)
  have "matchesSomewhere (map Lit q) (c # s)
          = (prefix (map toLower q) (map toLower (c # s)) \<or> matchesSomewhere (map Lit q) s)"
    by (simp only: matchesSomewhere.simps matchesAt_literal)
  with Cons show ?case by (simp add: sublist_Cons_right)
qed

text \<open>A pattern of plain characters is read as the case-insensitive substring test.\<close>

lemma modelled_plain: "list_all plainChar q \<Longrightarrow> modelled q = Some (Accepted (ciSubstring q))"
proof -
  assume p: "list_all plainChar q"
  then have "wellFormedPattern q" by (simp add: wellFormedPattern_def list_all_iff)
  moreover have "matchesSomewhere (map toAtom q) = ciSubstring q"
    by (rule ext) (simp add: toAtom_plain [OF p] matchesSomewhere_literal)
  ultimately show ?thesis by (simp add: modelled_def)
qed

lemma modelled_unclosed: "modelled ''('' = Some Rejected"
  by (simp add: modelled_def wellFormedPattern_def unclosedGroup_def plainChar_def
      isSyntaxChar_def)

subsection \<open>The router\<close>

text \<open>
  The path \<open>/search\<close> goes to the route \<open>/:id\<close>, registered first, and no request
  goes to the search route: the only path its pattern matches is matched by \<open>/:id\<close>.
\<close>

lemma dispatch_search: "dispatch GET [''search''] = Some (GetRoute, [(''id'', ''search'')])"
  by (simp add: dispatch_def routes_def)

lemma dispatch_never_search: "dispatch m path \<noteq> Some (SearchRoute, params)"
proof (cases path)
  case Nil
  then show ?thesis by (cases m) (simp_all add: dispatch_def routes_def)
next
  case (Cons x xs)
  show ?thesis
  proof (cases xs)
    case Nil
    with Cons show ?thesis
      by (cases m) (auto simp: dispatch_def routes_def split: if_splits)
  next
    case (Cons y ys)
    with \<open>path = x # xs\<close> show ?thesis
      by (cases m; cases ys) (auto simp: dispatch_def routes_def split: if_splits)
  qed
qed

text \<open>The other GET paths reach the handlers the claims are about.\<close>

lemma serveGet_list:
  "serveGet rd s owner [] qry
     = map_option (answered Page)
         (listHandler rd s owner (queryPage qry) (queryLimit qry) (queryArchived qry)
            (querySearch qry))"
  by (simp add: serveGet_def dispatch_def routes_def)

lemma serveGet_id:
  "castObjectId x = Some cid \<Longrightarrow>
     serveGet rd s owner [x] qry = Some (answered Document (getConversation s owner cid))"
  by (cases "x = []")
    (auto simp: serveGet_def dispatch_def routes_def getById_def castObjectId_def)

lemma castObjectId_search: "castObjectId ''search'' = None"
  by (simp add: castObjectId_def)

text \<open>
  Called on its own, the search handler's body does find the conversation titled
  \<open>Trip Planning\<close> for the query \<open>trip\<close>.
\<close>

lemma searchHandler_alone:
  "searchHandler modelled [tripPlanning] 1 (Some ''trip'') None None
     = Some (Inr \<lparr> conversations = [select tripPlanning], totalPages = Some 1,
                     currentPage = 1, total = 1, query = ''trip'' \<rparr>)"
proof -
  have p: "list_all plainChar ''trip''" by (simp add: plainChar_def isSyntaxChar_def)
  have c: "ciSubstring ''trip'' ''Trip Planning''"
    by (simp add: ciSubstring_def toLower_def sublist_Cons_right prefix_code char_of_def bit_simps)
  show ?thesis
    using c
    by (simp add: searchHandler_def modelled_plain [OF p] runQuery_div withQuery_def
        searchQuery_def limitDocs_def sortByUpdatedAtDesc_def tripPlanning_def listResult.defs)
qed

text \<open>
  The derivation itself follows the rule: 50 characters and the ellipsis for a longer
  content, the content as it is otherwise.
\<close>

lemma derivedTitle_long: "derivedTitle (replicate 60 (CHR ''a'')) = replicate 50 (CHR ''a'') @ ''...''"
  by (simp add: derivedTitle_def)

lemma derivedTitle_short: "length c \<le> 50 \<Longrightarrow> derivedTitle c = c"
  by (simp add: derivedTitle_def)

subsection \<open>Collections reached by requests are well formed\<close>

lemma map_oid_updateFirst:
  "(\<And>c. P c \<Longrightarrow> oid (f c) = oid c) \<Longrightarrow> map oid (updateFirst P f s) = map oid s"
  by (induction s) auto

lemma wellFormed_updateFirst:
  assumes "wellFormed s" and "\<And>c. c \<in> set s \<Longrightarrow> P c \<Longrightarrow> oid (f c) = oid c \<and> validConversation (f c)"
  shows "wellFormed (updateFirst P f s)"
  using assms
proof (induction s)
  case Nil
  then show ?case by simp
next
  case (Cons a s)
  from Cons.prems(1) have w: "wellFormed s" by (simp add: wellFormed_def)
  show ?case
  proof (cases "P a")
    case True
    with Cons.prems show ?thesis by (auto simp: wellFormed_def)
  next
    case False
    have "wellFormed (updateFirst P f s)"
      by (rule Cons.IH [OF w]) (simp add: Cons.prems(2))
    moreover have "oid ` set (updateFirst P f s) \<subseteq> oid ` set s"
    proof
      fix i assume "i \<in> oid ` set (updateFirst P f s)"
      then obtain x where x: "x \<in> set (updateFirst P f s)" "i = oid x" by auto
      from set_updateFirst_fun [OF x(1)] Cons.prems(2) x(2) show "i \<in> oid ` set s"
        by force
    qed
    ultimately show ?thesis using False Cons.prems(1) by (auto simp: wellFormed_def)
  qed
qed

lemma wellFormed_removeFirst: "wellFormed s \<Longrightarrow> wellFormed (removeFirst P s)"
  by (induction s) (auto simp: wellFormed_def dest: set_removeFirst)

lemma valid_createdAt [simp]: "validConversation (d\<lparr>createdAt := t\<rparr>) = validConversation d"
  by (simp add: validConversation_def)

lemma save_wellFormed: "wellFormed s \<Longrightarrow> wellFormed (snd (save now isNew doc s))"
proof -
  assume w: "wellFormed s"
  have u: "wellFormed (updateFirst (\<lambda>c. oid c = oid doc) (\<lambda>c. doc\<lparr>updatedAt := now\<rparr>) s)"
    if "validConversation doc"
    by (rule wellFormed_updateFirst [OF w]) (simp add: that)
  show ?thesis
    using w u by (auto simp: save_def Let_def wellFormed_def list_ex_iff)
qed

lemma andThen_wellFormed:
  assumes "wellFormed (snd r)" and "\<And>a s. wellFormed s \<Longrightarrow> wellFormed (snd (f a s))"
  shows "wellFormed (snd (andThen r f))"
  using assms by (cases r) (auto simp: andThen_def split: sum.splits)

lemma addMessage_wellFormed:
  "wellFormed s \<Longrightarrow> wellFormed (snd (addMessage now isNew r c m doc s))"
  by (simp add: addMessage_def save_wellFormed)

lemma updateTitle_wellFormed:
  "wellFormed s \<Longrightarrow> wellFormed (snd (updateTitleFromFirstMessage now doc s))"
  by (simp add: updateTitleFromFirstMessage_def save_wellFormed split: option.splits)

lemma snd_answer:
  "snd (case r of (Inl e, s') \<Rightarrow> (f e, s') | (Inr c, s') \<Rightarrow> (g c, s')) = snd r"
  by (cases r) (auto split: sum.splits)

lemma create_wellFormed:
  "wellFormed s \<Longrightarrow> wellFormed (snd (createConversation now newId owner ttl im s))"
  by (simp add: createConversation_def Let_def snd_answer andThen_wellFormed
      addMessage_wellFormed updateTitle_wellFormed save_wellFormed)

lemma update_wellFormed:
  assumes "wellFormed s"
  shows "wellFormed (snd (updateConversation now owner cid body s))"
proof -
  have a: "validConversation (applyUpdate now u c)" if "validConversation c" "validUpdate u" for u c
    using that
    by (auto simp: validConversation_def validUpdate_def applyUpdate_def split: option.splits)
  have "wellFormed (updateFirst P (applyUpdate now u) s)" if "validUpdate u" for P u
    by (rule wellFormed_updateFirst [OF assms])
      (use assms that a in \<open>auto simp: wellFormed_def list_all_iff applyUpdate_def\<close>)
  then have "wellFormed (snd (findOneAndUpdate now cid owner u s))" for u
    using assms by (auto simp: findOneAndUpdate_def Let_def split: option.splits)
  moreover have "snd (updateConversation now owner cid body s)
      = snd (findOneAndUpdate now cid owner (buildUpdates body) s)"
    by (simp add: updateConversation_def split: prod.splits sum.splits option.splits)
  ultimately show ?thesis by simp
qed

lemma delete_wellFormed:
  "wellFormed s \<Longrightarrow> wellFormed (snd (deleteConversation owner cid s))"
  by (simp add: deleteConversation_def wellFormed_removeFirst split: option.splits)

lemma append_wellFormed:
  "wellFormed s \<Longrightarrow> wellFormed (snd (appendMessage now owner cid r c m s))"
  by (auto simp: appendMessage_def snd_answer andThen_wellFormed addMessage_wellFormed
      updateTitle_wellFormed split: option.splits)

lemma saveTurn_wellFormed:
  "wellFormed s \<Longrightarrow> wellFormed (snd (saveTurn now msg ai cid uid s))"
  by (auto simp: saveTurn_def andThen_wellFormed addMessage_wellFormed split: option.splits)

lemma chat_wellFormed:
  "wellFormed s \<Longrightarrow> wellFormed (snd (chat prov now message cid uid s))"
  using saveTurn_wellFormed [of s now "the message" _ cid uid]
  by (auto simp: chat_def snd_answer split: sum.splits prod.splits)

lemma serve_wellFormed: "wellFormed s \<Longrightarrow> wellFormed (serve r s)"
  by (cases r)
    (simp_all add: create_wellFormed update_wellFormed delete_wellFormed append_wellFormed
      chat_wellFormed)

lemma fold_serve_wellFormed: "wellFormed s \<Longrightarrow> wellFormed (fold serve rs s)"
  by (induction rs arbitrary: s) (simp_all add: serve_wellFormed)

lemma run_wellFormed: "distinct (map oid (run rs)) \<and> list_all validConversation (run rs)"
  using fold_serve_wellFormed [of "[]" rs] by (simp add: run_def wellFormed_def)

section \<open>The claims\<close>





text \<open>
  C2 (title derivation), at the inputs the claim names: a create with no title and an
  initial message of 60 characters, or of 40. The document is built with the title
  \<open>'New Chat'\<close>, the derivation finds a title and leaves it, and the answer and the
  stored conversation carry \<open>'New Chat'\<close>, not the first 50 characters and an
  ellipsis, nor the 40-character message.
\<close>

theorem create_title_not_derived:
  "fst (createConversation now newId owner None (Some (replicate 60 (CHR ''a''))) [])
     = Inr \<lparr> summaryId = newId, summaryTitle = ''New Chat'', summaryMessageCount = 1,
             summaryLastMessage = Some \<lparr> role = ''user'', content = replicate 60 (CHR ''a''),
               timestamp = now, tokens = 0, msgModel = ''gpt-4o-mini'' \<rparr>,
             summaryCreatedAt = now, summaryUpdatedAt = now,
             summaryIsArchived = False, summaryIsPinned = False, summaryTags = [] \<rparr>
   \<and> map title (snd (createConversation now newId owner None
                       (Some (replicate 60 (CHR ''a''))) [])) = [''New Chat'']
   \<and> map title (snd (createConversation now newId owner None
                       (Some (replicate 40 (CHR ''a''))) [])) = [''New Chat'']"
  by (simp add: createConversation_def newConversation_def addMessage_def save_def andThen_def
      updateTitleFromFirstMessage_def validConversation_def validMessage_def validTemperature_def
      getSummary_def messageCount_def defaultModel_def pushMessage_def trim_def isWhiteSpace_def
      Let_def)

text \<open>
  C3 (partial update semantics), at a failing input: a conversation whose stored
  settings are temperature 0.7 and maxTokens 2000 is updated with the settings object
  that holds temperature 0.5 only. The stored settings become that object: maxTokens is
  no longer stored and reads as the schema's default 1000, not as 2000.
\<close>

theorem update_settings_replaced:
  "map settings
     (run [Create 10 7 1 (Some ''Trip Planning'') None,
           Update 11 1 7 (settingsBody (Some 0.7) (Some 2000))])
     = [\<lparr> temperature = Some 0.7, maxTokens = Some 2000 \<rparr>]
   \<and> map settings
     (run [Create 10 7 1 (Some ''Trip Planning'') None,
           Update 11 1 7 (settingsBody (Some 0.7) (Some 2000)),
           Update 12 1 7 (settingsBody (Some 0.5) None)])
     = [\<lparr> temperature = Some 0.5, maxTokens = None \<rparr>]
   \<and> map readMaxTokens
     (run [Create 10 7 1 (Some ''Trip Planning'') None,
           Update 11 1 7 (settingsBody (Some 0.7) (Some 2000)),
           Update 12 1 7 (settingsBody (Some 0.5) None)])
     = [1000]"
  by (simp add: run_def createConversation_def newConversation_def save_def
      updateConversation_def findOneAndUpdate_def findOne_def buildUpdates_def spread_def
      noSettings_def castUpdate_def validUpdate_def applyUpdate_def settingsBody_def
      validConversation_def validTemperature_def readMaxTokens_def
      trim_def isWhiteSpace_def Let_def)

text \<open>
  C4 (append validation and atomicity), as the code has it: on a stored conversation of
  the owner, a role outside user and assistant, an absent or empty content, or a
  content that is empty once trimmed answers ValidationFailure and leaves the collection
  as it was; otherwise exactly one message, with that role and the trimmed content, is
  appended at the end of the conversation's messages, and no other conversation changes.
\<close>

theorem appendMessage_validates_then_appends:
  assumes "distinct (map oid s)" and "findOne s cid owner = Some conv"
    and "validConversation conv"
  shows "appendMessage now owner cid r c m s =
     (if truthy r \<and> (the r = ''user'' \<or> the r = ''assistant'') \<and> truthy c \<and> trim (the c) \<noteq> []
      then (let mo = (case m of None \<Rightarrow> ''gpt-4o-mini'' | Some x \<Rightarrow> x);
                conv' = conv\<lparr>messages := messages conv @
                          [\<lparr> role = the r, content = trim (the c), timestamp = now,
                             tokens = 0, msgModel = mo \<rparr>],
                        model := mo, updatedAt := now\<rparr>
            in (Inr (getSummary conv'), map (\<lambda>x. if x = conv then conv' else x) s))
      else (Inl ValidationFailure, s))"
proof -
  from findOne_SomeD [OF assms(2)] have mem: "conv \<in> set s" and id: "oid conv = cid" by auto
  show ?thesis
  proof (cases "truthy r \<and> (the r = ''user'' \<or> the r = ''assistant'') \<and> truthy c")
    case False
    then show ?thesis by (auto simp: appendMessage_def)
  next
    case ok: True
    then have role: "the r = ''user'' \<or> the r = ''assistant''" by simp
    show ?thesis
    proof (cases "trim (the c) = []")
      case True
      with ok assms(2) addMessage_loaded [OF assms(3) mem role, of now "the c" m]
      show ?thesis by (simp add: appendMessage_def andThen_def)
    next
      case False
      let ?d = "(pushMessage now (the r) (the c) m conv)\<lparr>updatedAt := now\<rparr>"
      let ?s1 = "updateFirst (\<lambda>x. oid x = oid conv) (\<lambda>x. ?d) s"
      have add: "addMessage now False (the r) (the c) m conv s = (Inr ?d, ?s1)"
        using addMessage_loaded [OF assms(3) mem role, of now "the c" m] False by simp
      have vd: "validConversation ?d"
        using assms(3) role False by (simp add: valid_pushMessage)
      have dmem: "?d \<in> set ?s1" using mem by (rule updateFirst_member) simp
      have again: "updateTitleFromFirstMessage now ?d ?s1 = (Inr ?d, ?s1)"
        using updateTitle_loaded [OF vd dmem, of now]
        by (simp add: updateFirst_again)
      have s1: "?s1 = map (\<lambda>x. if x = conv then ?d else x) s"
        by (rule updateFirst_distinct [OF assms(1) mem])
      have d: "?d = conv\<lparr>messages := messages conv @
                          [\<lparr> role = the r, content = trim (the c), timestamp = now,
                             tokens = 0, msgModel = (case m of None \<Rightarrow> ''gpt-4o-mini'' | Some x \<Rightarrow> x) \<rparr>],
                        model := (case m of None \<Rightarrow> ''gpt-4o-mini'' | Some x \<Rightarrow> x), updatedAt := now\<rparr>"
        by (cases m) (simp_all add: pushMessage_def Let_def defaultModel_def)
      have "appendMessage now owner cid r c m s = (Inr (getSummary ?d), ?s1)"
        using ok assms(2) add again id by (simp add: appendMessage_def andThen_def)
      with s1 d ok False show ?thesis by (simp add: Let_def)
    qed
  qed
qed


theorem appendMessage_validates_then_appends_witness:
  "distinct (map oid [tripPlanning]) \<and> findOne [tripPlanning] 7 1 = Some tripPlanning
   \<and> validConversation tripPlanning
   \<and> appendMessage 20 1 7 (Some ''user'') (Some '' hi '') None [tripPlanning]
       = (Inr \<lparr> summaryId = 7, summaryTitle = ''Trip Planning'', summaryMessageCount = 1,
                summaryLastMessage = Some \<lparr> role = ''user'', content = ''hi'', timestamp = 20,
                  tokens = 0, msgModel = ''gpt-4o-mini'' \<rparr>,
                summaryCreatedAt = 10, summaryUpdatedAt = 20, summaryIsArchived = False,
                summaryIsPinned = False, summaryTags = [] \<rparr>,
          [tripPlanning\<lparr>messages := [\<lparr> role = ''user'', content = ''hi'', timestamp = 20,
                           tokens = 0, msgModel = ''gpt-4o-mini'' \<rparr>],
                         model := ''gpt-4o-mini'', updatedAt := 20\<rparr>])
   \<and> appendMessage 20 1 7 (Some ''system'') (Some ''hi'') None [tripPlanning]
       = (Inl ValidationFailure, [tripPlanning])"
proof -
  have d: "distinct (map oid [tripPlanning])" by simp
  have f: "findOne [tripPlanning] 7 1 = Some tripPlanning"
    by (simp add: findOne_def tripPlanning_def)
  have v: "validConversation tripPlanning"
    by (simp add: validConversation_def validTemperature_def tripPlanning_def)
  have t: "trim '' hi '' = ''hi''" by (simp add: trim_def isWhiteSpace_def)
  show ?thesis
    using d f v t
      appendMessage_validates_then_appends [OF d f v, of 20 "Some ''user''" "Some '' hi ''" None]
      appendMessage_validates_then_appends [OF d f v, of 20 "Some ''system''" "Some ''hi''" None]
    by (simp add: getSummary_def messageCount_def tripPlanning_def Let_def)
qed

text \<open>
  A content of one space is not empty, yet nothing is appended: the trimmed content is
  empty and the save is refused.
\<close>

theorem appendMessage_blank_content_counterexample:
  "appendMessage 20 1 7 (Some ''user'') (Some '' '') None [tripPlanning]
     = (Inl ValidationFailure, [tripPlanning])"
  by (simp add: appendMessage_def findOne_def addMessage_def pushMessage_def save_def
      andThen_def validConversation_def validMessage_def validTemperature_def
      tripPlanning_def trim_def isWhiteSpace_def defaultModel_def Let_def)

text \<open>
  C7 (chat relay context and growth), as the code has it: when the conversation id
  resolves to a conversation of the owner, the provider request is the last 10 stored
  messages at most, oldest first, each reduced to role and content, followed by the new
  user message; and on provider success, when the user message and the reply are both
  non-empty once trimmed, the conversation's messages grow by exactly 2, the trimmed
  user message and then the trimmed reply, and no other conversation changes.
\<close>

theorem chat_context_and_growth:
  assumes "distinct (map oid s)" and "findOne s cid owner = Some conv"
    and "validConversation conv"
    and "msg \<noteq> []" and "trim msg \<noteq> []"
    and "prov (providerMessages s msg (Some cid) (Some owner)) = Inr aiResponse"
    and "trim aiResponse \<noteq> []"
  shows "providerMessages s msg (Some cid) (Some owner)
           = map (\<lambda>m. (role m, content m)) (drop (length (messages conv) - 10) (messages conv))
               @ [(''user'', msg)]
    \<and> length (drop (length (messages conv) - 10) (messages conv)) \<le> 10
    \<and> chat prov now (Some msg) (Some cid) (Some owner) s
        = (Inr \<lparr> reply = aiResponse, conversationId = Some cid \<rparr>,
           map (\<lambda>x. if x = conv
                     then conv\<lparr>messages := messages conv @
                            [\<lparr> role = ''user'', content = trim msg, timestamp = now,
                               tokens = 0, msgModel = ''gpt-4o-mini'' \<rparr>,
                             \<lparr> role = ''assistant'', content = trim aiResponse, timestamp = now,
                               tokens = 0, msgModel = ''gpt-4o-mini'' \<rparr>],
                          model := ''gpt-4o-mini'', updatedAt := now\<rparr>
                     else x) s)"
proof -
  from findOne_SomeD [OF assms(2)] have mem: "conv \<in> set s" and id: "oid conv = cid" by auto
  let ?c1 = "(pushMessage now ''user'' msg None conv)\<lparr>updatedAt := now\<rparr>"
  let ?s1 = "updateFirst (\<lambda>x. oid x = oid conv) (\<lambda>x. ?c1) s"
  let ?c2 = "(pushMessage now ''assistant'' aiResponse None ?c1)\<lparr>updatedAt := now\<rparr>"
  let ?s2 = "updateFirst (\<lambda>x. oid x = oid conv) (\<lambda>x. ?c2) s"
  have a1: "addMessage now False ''user'' msg None conv s = (Inr ?c1, ?s1)"
    using addMessage_loaded [OF assms(3) mem, of "''user''" now msg None] assms(5) by simp
  have v1: "validConversation ?c1"
    using assms(3,5) by (simp add: valid_pushMessage)
  have m1: "?c1 \<in> set ?s1" using mem by (rule updateFirst_member) simp
  have "addMessage now False ''assistant'' aiResponse None ?c1 ?s1
          = (Inr ?c2, updateFirst (\<lambda>x. oid x = oid ?c1) (\<lambda>x. ?c2) ?s1)"
    using addMessage_loaded [OF v1 m1, of "''assistant''" now aiResponse None] assms(7) by simp
  then have a2: "addMessage now False ''assistant'' aiResponse None ?c1 ?s1 = (Inr ?c2, ?s2)"
    by (simp add: updateFirst_twice)
  have turn: "saveTurn now msg aiResponse (Some cid) (Some owner) s = (Inr (), ?s2)"
    using assms(2) a1 a2 by (simp add: saveTurn_def andThen_def)
  have s2: "?s2 = map (\<lambda>x. if x = conv then ?c2 else x) s"
    by (rule updateFirst_distinct [OF assms(1) mem])
  have c2: "?c2 = conv\<lparr>messages := messages conv @
                            [\<lparr> role = ''user'', content = trim msg, timestamp = now,
                               tokens = 0, msgModel = ''gpt-4o-mini'' \<rparr>,
                             \<lparr> role = ''assistant'', content = trim aiResponse, timestamp = now,
                               tokens = 0, msgModel = ''gpt-4o-mini'' \<rparr>],
                          model := ''gpt-4o-mini'', updatedAt := now\<rparr>"
    by (simp add: pushMessage_def defaultModel_def Let_def)
  have "chat prov now (Some msg) (Some cid) (Some owner) s
          = (Inr \<lparr> reply = aiResponse, conversationId = Some cid \<rparr>, ?s2)"
    using assms(4,6) turn by (simp add: chat_def)
  with s2 c2 conversationContext_found [OF assms(2)] show ?thesis
    by (simp add: providerMessages_def)
qed

theorem chat_context_and_growth_witness:
  "distinct (map oid [tripPlanning]) \<and> findOne [tripPlanning] 7 1 = Some tripPlanning
   \<and> validConversation tripPlanning \<and> ''hi'' \<noteq> [] \<and> trim ''hi'' \<noteq> []
   \<and> trim ''hello'' \<noteq> []
   \<and> providerMessages [tripPlanning] ''hi'' (Some 7) (Some 1) = [(''user'', ''hi'')]
   \<and> chat (\<lambda>ms. Inr ''hello'') 20 (Some ''hi'') (Some 7) (Some 1) [tripPlanning]
        = (Inr \<lparr> reply = ''hello'', conversationId = Some 7 \<rparr>,
           [tripPlanning\<lparr>messages :=
               [\<lparr> role = ''user'', content = ''hi'', timestamp = 20, tokens = 0,
                  msgModel = ''gpt-4o-mini'' \<rparr>,
                \<lparr> role = ''assistant'', content = ''hello'', timestamp = 20, tokens = 0,
                  msgModel = ''gpt-4o-mini'' \<rparr>],
              model := ''gpt-4o-mini'', updatedAt := 20\<rparr>])"
proof -
  have d: "distinct (map oid [tripPlanning])" by simp
  have f: "findOne [tripPlanning] 7 1 = Some tripPlanning"
    by (simp add: findOne_def tripPlanning_def)
  have v: "validConversation tripPlanning"
    by (simp add: validConversation_def validTemperature_def tripPlanning_def)
  have t1: "trim ''hi'' = ''hi''" and t2: "trim ''hello'' = ''hello''"
    by (simp_all add: trim_def isWhiteSpace_def)
  have m: "''hi'' \<noteq> []" and t1': "trim ''hi'' \<noteq> []" and t2': "trim ''hello'' \<noteq> []"
    using t1 t2 by simp_all
  have p: "(\<lambda>ms. Inr ''hello'' :: nat option + string)
             (providerMessages [tripPlanning] ''hi'' (Some 7) (Some 1)) = Inr ''hello''"
    by simp
  show ?thesis
    using d f v t1 t2 chat_context_and_growth [OF d f v m t1' p t2', of 20]
    by (simp add: tripPlanning_def)
qed

text \<open>
  The provider succeeds with an empty reply: the user message is saved, the save of the
  assistant message is refused, the call answers with a failure, and the conversation
  has grown by 1.
\<close>

theorem chat_empty_reply_counterexample:
  "chat (\<lambda>ms. Inr []) 20 (Some ''hi'') (Some 7) (Some 1) [tripPlanning]
     = (Inl ProviderError,
        [tripPlanning\<lparr>messages :=
            [\<lparr> role = ''user'', content = ''hi'', timestamp = 20, tokens = 0,
               msgModel = ''gpt-4o-mini'' \<rparr>],
           model := ''gpt-4o-mini'', updatedAt := 20\<rparr>])"
  by (simp add: chat_def providerMessages_def saveTurn_def findOne_def addMessage_def
      pushMessage_def save_def andThen_def chatFailure_def validConversation_def
      validMessage_def validTemperature_def tripPlanning_def trim_def isWhiteSpace_def
      defaultModel_def Let_def)

text \<open>
  C8 (detached chat): with no conversation id, on provider success the reply is
  returned with no conversation id and the collection is the one before the call.
\<close>

theorem chat_detached:
  assumes "msg \<noteq> []" and "prov [(''user'', msg)] = Inr r"
  shows "chat prov now (Some msg) None uid s = (Inr \<lparr> reply = r, conversationId = None \<rparr>, s)"
  using assms
  by (simp add: chat_def providerMessages_def conversationContext_def saveTurn_def)

theorem chat_detached_witness:
  "''hi'' \<noteq> [] \<and> (\<lambda>ms. Inr ''hello'' :: nat option + string) [(''user'', ''hi'')] = Inr ''hello''
   \<and> chat (\<lambda>ms. Inr ''hello'') 20 (Some ''hi'') None (Some 1) [tripPlanning]
     = (Inr \<lparr> reply = ''hello'', conversationId = None \<rparr>, [tripPlanning])"
  using chat_detached [of "''hi''" "\<lambda>ms. Inr ''hello''" "''hello''" 20 "Some 1" "[tripPlanning]"]
  by simp

text \<open>
  C9 (provider failure classification), as the code does it: whatever status the
  provider reported with its failure, 401 and 429 included, the answer is the 500 of
  ProviderError, never AuthFailure or RateLimited. The catch block tests
  \<open>error.response?.status\<close>, and the client's error holds the status in
  \<open>error.status\<close>. The failure is not turned into a success, and the collection is
  the one before the call.
\<close>

theorem chat_provider_failure_unclassified:
  assumes "msg \<noteq> []" and "prov (providerMessages s msg cid uid) = Inl st"
  shows "chat prov now (Some msg) cid uid s = (Inl ProviderError, s)"
  using assms by (simp add: chat_def chatFailure_def)

theorem chat_provider_failure_unclassified_witness:
  "''hi'' \<noteq> []
   \<and> chat (\<lambda>ms. Inl (Some 401)) 20 (Some ''hi'') (Some 7) (Some 1) [tripPlanning]
        = (Inl ProviderError, [tripPlanning])
   \<and> chat (\<lambda>ms. Inl (Some 429)) 20 (Some ''hi'') (Some 7) (Some 1) [tripPlanning]
        = (Inl ProviderError, [tripPlanning])
   \<and> chat (\<lambda>ms. Inl None) 20 (Some ''hi'') None None [tripPlanning]
        = (Inl ProviderError, [tripPlanning])"
  using chat_provider_failure_unclassified [of "''hi''" "\<lambda>ms. Inl (Some 401)" "[tripPlanning]"
      "Some 7" "Some 1" "Some 401" 20]
    chat_provider_failure_unclassified [of "''hi''" "\<lambda>ms. Inl (Some 429)" "[tripPlanning]"
      "Some 7" "Some 1" "Some 429" 20]
    chat_provider_failure_unclassified [of "''hi''" "\<lambda>ms. Inl None" "[tripPlanning]"
      None None None 20]
  by simp

text \<open>
  C5 (search matching), as the code does it: a search request,
  \<open>GET /api/conversations/search\<close>, is matched by the route \<open>/:id\<close> that the router
  registers before \<open>/search\<close>. The handler of \<open>/:id\<close> answers it, with the id
  \<open>search\<close>: the cast to an ObjectId fails and the answer is 400, whatever the query
  string, the collection and the database's regular expressions are. The owner's
  conversation titled \<open>Trip Planning\<close>, of which \<open>trip\<close> is a case-insensitive
  substring, is not found by the query \<open>trip\<close>.
\<close>

theorem search_request_answered_by_get:
  "dispatch GET [''search''] = Some (GetRoute, [(''id'', ''search'')])
   \<and> serveGet rd s owner [''search''] qry = Some (Inl ValidationFailure)
   \<and> userId tripPlanning = 1 \<and> ciSubstring ''trip'' (title tripPlanning)
   \<and> serveGet modelled [tripPlanning] 1 [''search'']
        \<lparr> queryPage = None, queryLimit = None, queryArchived = None, querySearch = None,
          queryQ = Some ''trip'' \<rparr> = Some (Inl ValidationFailure)"
proof -
  have d: "dispatch GET [''search''] = Some (GetRoute, [(''id'', ''search'')])"
    by (rule dispatch_search)
  have g: "serveGet r c u [''search''] y = Some (Inl ValidationFailure)" for r c u y
    by (simp add: serveGet_def d getById_def castObjectId_search answered_def)
  have c: "ciSubstring ''trip'' (title tripPlanning)"
    by (simp add: tripPlanning_def ciSubstring_def toLower_def sublist_Cons_right prefix_code
        char_of_def bit_simps)
  from d g c show ?thesis by (simp add: tripPlanning_def)
qed

text \<open>
  C6 (list pagination and ordering), as the code has it, for page and limit at least 1
  and whatever the database's regular expressions are. When the search text is not
  empty and the database rejects it as a regular expression, list answers with a
  server error. In every other case list answers with the conversations at offset
  (page - 1) * limit, at most limit of them, of an ordering of the matching
  conversations that is descending by \<open>updatedAt\<close>; every conversation is the owner's
  and has the requested archived flag; total pages is the ceiling of total / limit; and
  a total of 45 with limit 20 gives 3 pages, page 3 holding 5 conversations.
\<close>

theorem list_pagination:
  assumes "1 \<le> page" and "1 \<le> limit"
  shows "(truthy search \<and> rd (the search) = Some Rejected
          \<longrightarrow> listHandler rd s owner (Some page) (Some limit) archived search
                = Some (Inl ServerError))
    \<and> (\<not> truthy search \<or> rd (the search) = Some (Accepted test)
          \<longrightarrow> (\<exists>res ordered.
       listHandler rd s owner (Some page) (Some limit) archived search = Some (Inr res)
     \<and> mset ordered = mset (filter (listQuery owner (archived = Some ''true'')
                                  (if truthy search then Some test else None)) s)
     \<and> sorted_wrt (\<lambda>a b. updatedAt b \<le> updatedAt a) ordered
     \<and> list_all (\<lambda>c. userId c = owner \<and> isArchived c = (archived = Some ''true'')) ordered
     \<and> total res = length ordered
     \<and> totalPages res = Some \<lceil>real (total res) / real_of_int limit\<rceil>
     \<and> totalPages res = Some ((int (total res) + limit - 1) div limit)
     \<and> conversations res = map select (take (nat limit) (drop (nat ((page - 1) * limit)) ordered))
     \<and> list_all (\<lambda>x. listedIsArchived x = (archived = Some ''true'')) (conversations res)
     \<and> (total res = 45 \<and> limit = 20
          \<longrightarrow> totalPages res = Some 3 \<and> (page = 3 \<longrightarrow> length (conversations res) = 5))))"
proof (intro conjI impI)
  assume "truthy search \<and> rd (the search) = Some Rejected"
  then show "listHandler rd s owner (Some page) (Some limit) archived search
                = Some (Inl ServerError)"
    by (simp add: listHandler_def)
next
  assume acc: "\<not> truthy search \<or> rd (the search) = Some (Accepted test)"
  let ?P = "listQuery owner (archived = Some ''true'')
              (if truthy search then Some test else None)"
  let ?ordered = "sortByUpdatedAtDesc (filter ?P s)"
  let ?res = "\<lparr> conversations = map select (take (nat limit) (drop (nat ((page - 1) * limit)) ?ordered)),
               totalPages = Some \<lceil>real (length (filter ?P s)) / real_of_int limit\<rceil>,
               currentPage = page, total = length (filter ?P s) \<rparr>"
  from assms(1,2) have skip: "\<not> (page - 1) * limit < 0" by (simp add: not_less)
  from assms(2) have lim: "limit \<noteq> 0" by simp
  have run: "runQuery ?P page limit s = Inr ?res"
    using skip lim assms(2) by (simp add: runQuery_def Let_def limitDocs_pos)
  have l: "listHandler rd s owner (Some page) (Some limit) archived search = Some (Inr ?res)"
    using acc run by (auto simp: listHandler_def Let_def)
  have m: "mset ?ordered = mset (filter ?P s)"
    by (simp add: sortByUpdatedAtDesc_def)
  have a: "list_all (\<lambda>c. userId c = owner \<and> isArchived c = (archived = Some ''true'')) ?ordered"
    by (auto simp: list_all_iff sortByUpdatedAtDesc_def listQuery_def)
  have len: "length ?ordered = length (filter ?P s)"
    by (simp add: sortByUpdatedAtDesc_def)
  have tp: "\<lceil>real (length (filter ?P s)) / real_of_int limit\<rceil>
              = (int (length (filter ?P s)) + limit - 1) div limit"
    using assms(2) by (simp add: ceiling_quotient round_up_div)
  have ex: "total ?res = 45 \<and> limit = 20
          \<longrightarrow> totalPages ?res = Some 3 \<and> (page = 3 \<longrightarrow> length (conversations ?res) = 5)"
    using len by (auto simp: tp)
  have pg: "list_all (\<lambda>x. listedIsArchived x = (archived = Some ''true'')) (conversations ?res)"
    using a by (auto simp: list_all_iff select_def dest!: in_set_takeD in_set_dropD)
  show "\<exists>res ordered.
       listHandler rd s owner (Some page) (Some limit) archived search = Some (Inr res)
     \<and> mset ordered = mset (filter ?P s)
     \<and> sorted_wrt (\<lambda>a b. updatedAt b \<le> updatedAt a) ordered
     \<and> list_all (\<lambda>c. userId c = owner \<and> isArchived c = (archived = Some ''true'')) ordered
     \<and> total res = length ordered
     \<and> totalPages res = Some \<lceil>real (total res) / real_of_int limit\<rceil>
     \<and> totalPages res = Some ((int (total res) + limit - 1) div limit)
     \<and> conversations res = map select (take (nat limit) (drop (nat ((page - 1) * limit)) ordered))
     \<and> list_all (\<lambda>x. listedIsArchived x = (archived = Some ''true'')) (conversations res)
     \<and> (total res = 45 \<and> limit = 20
          \<longrightarrow> totalPages res = Some 3 \<and> (page = 3 \<longrightarrow> length (conversations res) = 5))"
    apply (rule exI [of _ ?res])
    apply (rule exI [of _ ?ordered])
    using l m a len tp ex pg sorted_desc [of "filter ?P s"]
    apply simp
    done
qed

theorem list_pagination_witness:
  "(1::int) \<le> 3 \<and> (1::int) \<le> 20 \<and> \<not> truthy None
   \<and> truthy (Some ''('') \<and> modelled ''('' = Some Rejected
   \<and> listHandler modelled fortyFive 1 (Some 3) (Some 20) None (Some ''('')
        = Some (Inl ServerError)
   \<and> (\<exists>res. listHandler modelled fortyFive 1 (Some 3) (Some 20) None None = Some (Inr res)
         \<and> total res = 45 \<and> totalPages res = Some 3 \<and> length (conversations res) = 5
         \<and> list_all (\<lambda>x. \<not> listedIsArchived x) (conversations res))"
proof -
  have p: "(1::int) \<le> 3" and q: "(1::int) \<le> 20" by simp_all
  from list_pagination [OF p q, of None modelled fortyFive 1 None "\<lambda>x. True"]
  obtain res ordered where
    l: "listHandler modelled fortyFive 1 (Some 3) (Some 20) None None = Some (Inr res)"
    and m: "mset ordered = mset (filter (listQuery 1 False None) fortyFive)"
    and t: "total res = length ordered"
    and c: "list_all (\<lambda>x. listedIsArchived x = (None = Some ''true'')) (conversations res)"
    and e: "total res = 45 \<and> (20::int) = 20
          \<longrightarrow> totalPages res = Some 3 \<and> ((3::int) = 3 \<longrightarrow> length (conversations res) = 5)"
    by auto
  from m have "length ordered = length (filter (listQuery 1 False None) fortyFive)"
    by (rule mset_eq_length)
  also have "\<dots> = 45" by (simp only: fortyFive_listed length_fortyFive)
  finally have "length ordered = 45" .
  with t have t45: "total res = 45" by simp
  with e have tp: "totalPages res = Some 3" and n: "length (conversations res) = 5" by simp_all
  have a: "list_all (\<lambda>x. \<not> listedIsArchived x) (conversations res)"
    using c by simp
  have r: "listHandler modelled fortyFive 1 (Some 3) (Some 20) None (Some ''('')
        = Some (Inl ServerError)"
    using list_pagination [OF p q, of "Some ''(''" modelled fortyFive 1 None "\<lambda>x. True"]
    by (simp add: modelled_unclosed)
  from l t45 tp n a r show ?thesis by (auto simp: modelled_unclosed)
qed

text \<open>
  A list call with page 1, limit 20 and the search text \<open>(\<close>: the database rejects
  the pattern, and the answer is a server error, with no page and no total pages.
\<close>

theorem list_rejected_pattern_counterexample:
  "listConversations [tripPlanning] 1 (Some 1) (Some 20) None (Some ''('')
     = Some (Inl ServerError)"
  by (simp add: listConversations_def listHandler_def modelled_unclosed)

text \<open>
  C10 (totalTokens): in the collection after any sequence of requests from the empty
  collection every conversation has \<open>totalTokens = 0\<close>; and a single request, on any
  collection, leaves each conversation with the \<open>totalTokens\<close> that the conversation
  of its id had before, a conversation whose id is new carrying 0.
\<close>

theorem totalTokens_never_written:
  "list_all (\<lambda>c. totalTokens c = 0) (run rs)
   \<and> list_all (\<lambda>d. (\<exists>c \<in> set s. oid c = oid d \<and> totalTokens c = totalTokens d)
                     \<or> (oid d \<notin> oid ` set s \<and> totalTokens d = 0)) (serve r s)"
  using fold_serve_zero [of "[]" rs] serve_tokens [of s r]
  by (simp add: run_def sameTokens_def [abs_def])

theorem totalTokens_never_written_witness:
  "map totalTokens
     (run [Create 10 7 1 None (Some ''plan a trip''),
           Append 11 1 7 (Some ''assistant'') (Some ''where to?'') None,
           Update 12 1 7 (settingsBody (Some 0.5) None),
           Chat (\<lambda>ms. Inr ''hello'') 13 (Some ''hi'') (Some 7) (Some 1),
           Create 14 8 2 (Some ''Notes'') None,
           Delete 2 8]) = [0]
   \<and> map (\<lambda>c. length (messages c))
     (run [Create 10 7 1 None (Some ''plan a trip''),
           Append 11 1 7 (Some ''assistant'') (Some ''where to?'') None,
           Update 12 1 7 (settingsBody (Some 0.5) None),
           Chat (\<lambda>ms. Inr ''hello'') 13 (Some ''hi'') (Some 7) (Some 1),
           Create 14 8 2 (Some ''Notes'') None,
           Delete 2 8]) = [4]"
  using totalTokens_never_written [of "[Create 10 7 1 None (Some ''plan a trip''),
           Append 11 1 7 (Some ''assistant'') (Some ''where to?'') None,
           Update 12 1 7 (settingsBody (Some 0.5) None),
           Chat (\<lambda>ms. Inr ''hello'') 13 (Some ''hi'') (Some 7) (Some 1),
           Create 14 8 2 (Some ''Notes'') None,
           Delete 2 8]" "[]" "Get 1 7"]
  by (simp add: run_def createConversation_def newConversation_def save_def andThen_def
      addMessage_def pushMessage_def updateTitleFromFirstMessage_def appendMessage_def
      updateConversation_def findOneAndUpdate_def findOne_def buildUpdates_def spread_def
      noSettings_def castUpdate_def validUpdate_def applyUpdate_def settingsBody_def
      deleteConversation_def chat_def saveTurn_def providerMessages_def
      conversationContext_def recentMessages_def
      validConversation_def validMessage_def validTemperature_def defaultModel_def
      trim_def isWhiteSpace_def Let_def)

end
